theory Spec2Isabelle
  imports Complex_Main
begin

section \<open>Data model\<close>

text \<open>
  The program (\<^verbatim>\<open>src/App.tsx\<close>) drives a camera through an apartment from the page's
  scroll progress. JavaScript numbers are idealised as real numbers throughout: the
  decimal literals of the source denote the rationals they spell, and rounding of IEEE
  doubles is not modelled.
\<close>

record vec3 =
  x :: real
  y :: real
  z :: real

text \<open>One entry of \<^verbatim>\<open>CAMERA_PATH\<close>: \<^verbatim>\<open>{ pos, look, scroll }\<close>.\<close>

record keyframe =
  pos :: vec3
  look :: vec3
  scroll :: real

definition ROOM_NAMES :: "string list" where
  "ROOM_NAMES =
     [''The Grand Foyer'', ''The Living Room'', ''The Master Suite'',
      ''The Modular Kitchen'', ''The Private Study'']"

definition CAMERA_PATH :: "keyframe list" where
  "CAMERA_PATH =
     [\<lparr>pos = \<lparr>x = 0, y = 1.6, z = 12\<rparr>, look = \<lparr>x = 0, y = 1.6, z = 0\<rparr>, scroll = 0\<rparr>,
      \<lparr>pos = \<lparr>x = 0, y = 1.6, z = 6\<rparr>, look = \<lparr>x = 0, y = 1.6, z = 0\<rparr>, scroll = 0.15\<rparr>,
      \<lparr>pos = \<lparr>x = 0, y = 1.6, z = 0\<rparr>, look = \<lparr>x = -4, y = 1.6, z = -2\<rparr>, scroll = 0.25\<rparr>,
      \<lparr>pos = \<lparr>x = -4, y = 1.6, z = -2\<rparr>, look = \<lparr>x = -8, y = 1.6, z = -2\<rparr>, scroll = 0.35\<rparr>,
      \<lparr>pos = \<lparr>x = -8, y = 1.6, z = -2\<rparr>, look = \<lparr>x = -8, y = 1.6, z = -8\<rparr>, scroll = 0.45\<rparr>,
      \<lparr>pos = \<lparr>x = -8, y = 1.6, z = -8\<rparr>, look = \<lparr>x = -4, y = 1.6, z = -10\<rparr>, scroll = 0.55\<rparr>,
      \<lparr>pos = \<lparr>x = -4, y = 1.6, z = -10\<rparr>, look = \<lparr>x = -4, y = 1.6, z = -14\<rparr>, scroll = 0.65\<rparr>,
      \<lparr>pos = \<lparr>x = -4, y = 1.6, z = -14\<rparr>, look = \<lparr>x = -4, y = 1.6, z = -18\<rparr>, scroll = 0.75\<rparr>,
      \<lparr>pos = \<lparr>x = -4, y = 1.6, z = -18\<rparr>, look = \<lparr>x = -4, y = 1.6, z = -22\<rparr>, scroll = 0.85\<rparr>,
      \<lparr>pos = \<lparr>x = -4, y = 1.6, z = -22\<rparr>, look = \<lparr>x = 0, y = 1.6, z = -22\<rparr>, scroll = 1.0\<rparr>]"

section \<open>Room label selection\<close>

text \<open>
  The \<^verbatim>\<open>onUpdate\<close> callback of the scroll trigger picks the room name by an
  if/else-if chain over \<^verbatim>\<open>self.progress\<close>; this is the name it passes to
  \<^verbatim>\<open>setCurrentRoom\<close>.
\<close>

definition roomLabel :: "real \<Rightarrow> string" where
  "roomLabel progress =
     (if progress < 0.2 then ROOM_NAMES ! 0
      else if progress < 0.4 then ROOM_NAMES ! 1
      else if progress < 0.6 then ROOM_NAMES ! 2
      else if progress < 0.8 then ROOM_NAMES ! 3
      else ROOM_NAMES ! 4)"

section \<open>The camera path invariant\<close>

text \<open>Consecutive keyframes have strictly increasing scroll values.\<close>

fun strictlyIncreasing :: "keyframe list \<Rightarrow> bool" where
  "strictlyIncreasing [] = True"
| "strictlyIncreasing [k] = True"
| "strictlyIncreasing (k # k' # ks) = (scroll k < scroll k' \<and> strictlyIncreasing (k' # ks))"

text \<open>
  The CameraPath invariant of the data model: at least two keyframes, strictly
  increasing scroll values, the first at 0 and the last at 1.
\<close>

definition validPath :: "keyframe list \<Rightarrow> bool" where
  "validPath path =
     (2 \<le> length path \<and> strictlyIncreasing path \<and>
      scroll (hd path) = 0 \<and> scroll (last path) = 1)"

section \<open>Mapping the camera path onto the timeline\<close>

text \<open>
  The pose of the camera as far as the tour is concerned: where it stands
  (\<^verbatim>\<open>camera.position\<close>) and the point last handed to \<^verbatim>\<open>camera.lookAt\<close>.
\<close>

record pose =
  position :: vec3
  lookAt :: vec3

text \<open>
  A tween of the timeline, as \<^verbatim>\<open>tl.to(target, {x, y, z, duration, ease: 'none'}, start)\<close>
  creates it. The position tweens all animate the one object \<^verbatim>\<open>camera.position\<close>; every
  look-at tween animates a dummy object of its own, created with the previous keyframe's
  look-at point, and hands it to \<^verbatim>\<open>camera.lookAt\<close> when it updates.
\<close>

datatype tweenTarget = CameraPosition | LookObj vec3

record tween =
  target :: tweenTarget
  vars :: vec3
  duration :: real
  startTime :: real

text \<open>What the \<^verbatim>\<open>forEach\<close> over the path works on: the camera and the timeline \<^verbatim>\<open>tl\<close>.\<close>

record stage =
  cam :: pose
  timeline :: "tween list"

text \<open>Reading a property of \<^verbatim>\<open>undefined\<close> throws.\<close>

datatype error = TypeError

text \<open>A fresh camera stands at the origin and looks down the negative z axis.\<close>

definition newCamera :: pose where
  "newCamera = \<lparr>position = \<lparr>x = 0, y = 0, z = 0\<rparr>, lookAt = \<lparr>x = 0, y = 0, z = -1\<rparr>\<rparr>"

text \<open>Indexing a JavaScript array: \<^verbatim>\<open>undefined\<close> out of range.\<close>

definition arrayGet :: "'a list \<Rightarrow> nat \<Rightarrow> 'a option" where
  "arrayGet xs i = (if i < length xs then Some (xs ! i) else None)"

text \<open>
  The callback of \<^verbatim>\<open>CAMERA_PATH.forEach((point, i) => ...)\<close>: the first keyframe places
  the camera; every later one appends a position tween and a look-at tween that start at
  the previous keyframe's scroll value and last for the difference of the two.
\<close>

definition mapPoint :: "keyframe list \<Rightarrow> stage \<Rightarrow> nat \<times> keyframe \<Rightarrow> error + stage" where
  "mapPoint path s ip =
     (case ip of (i, point) \<Rightarrow>
        if i = 0 then
          Inr (s\<lparr>cam := \<lparr>position = pos point, lookAt = look point\<rparr>\<rparr>)
        else
          (case arrayGet path (i - 1) of
             None \<Rightarrow> Inl TypeError
           | Some prev \<Rightarrow>
               let duration = scroll point - scroll prev in
               Inr (s\<lparr>timeline := timeline s @
                 [\<lparr>target = CameraPosition, vars = pos point,
                   duration = duration, startTime = scroll prev\<rparr>,
                  \<lparr>target = LookObj (look prev), vars = look point,
                   duration = duration, startTime = scroll prev\<rparr>]\<rparr>)))"

fun forEach :: "('s \<Rightarrow> nat \<times> 'a \<Rightarrow> error + 's) \<Rightarrow> (nat \<times> 'a) list \<Rightarrow> 's \<Rightarrow> error + 's" where
  "forEach f [] s = Inr s"
| "forEach f (ia # rest) s = (case f s ia of Inl e \<Rightarrow> Inl e | Inr s' \<Rightarrow> forEach f rest s')"

definition mapCameraPath :: "keyframe list \<Rightarrow> stage \<Rightarrow> error + stage" where
  "mapCameraPath path s = forEach (mapPoint path) (enumerate 0 path) s"

section \<open>Playing the timeline\<close>

text \<open>
  How the timeline is played at a scroll progress is left by the program to the animation
  library (GSAP's timeline and its scroll trigger), which is not among the sources. The
  definitions of this section are therefore modelled from the specification of the path
  interpolator, except for where the playhead stands: the program hands the timeline to a
  scrubbed scroll trigger, which maps the whole timeline onto the scroll distance (the
  source's comment after the path mapping says so), so that at progress \<open>p\<close> the playhead
  stands at \<open>p\<close> times the duration of the timeline. The smoothing of the scroll trigger
  (\<^verbatim>\<open>scrub: 1\<close>), a lag in real time, is not modelled.
\<close>

text \<open>
  Modelled from the spec: the library's linear interpolation (\<^verbatim>\<open>ease: 'none'\<close>), missing
  from the sources; \<open>lerp(a, b, u) = a + (b - a) * u\<close>.
\<close>

definition lerp :: "real \<Rightarrow> real \<Rightarrow> real \<Rightarrow> real" where
  "lerp a b u = a + (b - a) * u"

text \<open>
  Modelled from the spec: the library's interpolation of the three animated properties,
  missing from the sources; position and look-at point are interpolated component-wise.
\<close>

definition lerp3 :: "vec3 \<Rightarrow> vec3 \<Rightarrow> real \<Rightarrow> vec3" where
  "lerp3 a b u = \<lparr>x = lerp (x a) (x b) u, y = lerp (y a) (y b) u, z = lerp (z a) (z b) u\<rparr>"

text \<open>
  Modelled from the spec: the library's local parameter of a tween, missing from the
  sources; \<open>u = (progress - t\<^sub>i) / (t\<^sub>i\<^sub>+\<^sub>1 - t\<^sub>i)\<close> for a tween that starts at \<open>t\<^sub>i\<close> and lasts
  \<open>t\<^sub>i\<^sub>+\<^sub>1 - t\<^sub>i\<close>, and 1 once the playhead has reached the tween's end (so that a tween of
  no length snaps to its end and nothing is divided by zero).
\<close>

definition tweenRatio :: "tween \<Rightarrow> real \<Rightarrow> real" where
  "tweenRatio tw playhead =
     (if startTime tw + duration tw \<le> playhead then 1
      else (playhead - startTime tw) / duration tw)"

text \<open>
  Modelled from the spec: the library's rendering of one tween, missing from the sources.
  A tween that the playhead has not reached leaves its target alone. A position tween
  moves the camera from where it stands when the tween takes over towards the tween's
  end values; a look-at tween moves its dummy object from the values it was created with
  and hands it to \<^verbatim>\<open>camera.lookAt\<close>.
\<close>

definition renderTween :: "real \<Rightarrow> pose \<Rightarrow> tween \<Rightarrow> pose" where
  "renderTween playhead c tw =
     (if playhead < startTime tw then c
      else
        (case target tw of
           CameraPosition \<Rightarrow>
             c\<lparr>position := lerp3 (position c) (vars tw) (tweenRatio tw playhead)\<rparr>
         | LookObj lookObj \<Rightarrow>
             c\<lparr>lookAt := lerp3 lookObj (vars tw) (tweenRatio tw playhead)\<rparr>))"

text \<open>
  Modelled from the spec: the library's rendering of the timeline, missing from the
  sources; the tweens are rendered in the order in which they were added, starting from
  the camera as the path mapping left it.
\<close>

definition renderTimeline :: "real \<Rightarrow> stage \<Rightarrow> pose" where
  "renderTimeline playhead s = foldl (renderTween playhead) (cam s) (timeline s)"

text \<open>
  Modelled from the spec: the bounds that the library's scroll trigger keeps the progress
  in, missing from the sources; progress is clamped to [0,1] before lookup.
\<close>

definition clamp01 :: "real \<Rightarrow> real" where
  "clamp01 progress = (if progress < 0 then 0 else if 1 < progress then 1 else progress)"

text \<open>
  Modelled from the spec: the library's duration of a timeline, missing from the sources;
  the timeline spans the segments of the path, from 0 to the end of its last tween.
\<close>

definition timelineDuration :: "tween list \<Rightarrow> real" where
  "timelineDuration tws = foldl max 0 (map (\<lambda>tw. startTime tw + duration tw) tws)"

text \<open>
  The path interpolator \<open>interpolate(path, progress)\<close>: the pose of the camera at a scroll
  progress, for the timeline that the program's \<^verbatim>\<open>forEach\<close> builds from the path. The
  scroll trigger of the program (\<^verbatim>\<open>scrollTrigger: { ..., scrub: 1 }\<close> on the timeline)
  puts the playhead at the clamped progress times the timeline's duration.
\<close>

definition interpolate :: "keyframe list \<Rightarrow> real \<Rightarrow> error + pose" where
  "interpolate path progress =
     (case mapCameraPath path \<lparr>cam = newCamera, timeline = []\<rparr> of
        Inl e \<Rightarrow> Inl e
      | Inr s \<Rightarrow>
          Inr (renderTimeline (clamp01 progress * timelineDuration (timeline s)) s))"

text \<open>
  The path of the specification's scenario: the first, second and fourth keyframe of
  \<^verbatim>\<open>CAMERA_PATH\<close>. Its timeline ends at 0.35.
\<close>

definition scenarioPath :: "keyframe list" where
  "scenarioPath =
     [\<lparr>pos = \<lparr>x = 0, y = 1.6, z = 12\<rparr>, look = \<lparr>x = 0, y = 1.6, z = 0\<rparr>, scroll = 0\<rparr>,
      \<lparr>pos = \<lparr>x = 0, y = 1.6, z = 6\<rparr>, look = \<lparr>x = 0, y = 1.6, z = 0\<rparr>, scroll = 0.15\<rparr>,
      \<lparr>pos = \<lparr>x = -4, y = 1.6, z = -2\<rparr>, look = \<lparr>x = -8, y = 1.6, z = -2\<rparr>, scroll = 0.35\<rparr>]"

subsection \<open>The segments of a path\<close>

text \<open>
  The vocabulary in which the properties are stated: the pose of a keyframe, the local
  parameter of a progress between two keyframes, and the pose interpolated between two
  keyframes at a local parameter.
\<close>

definition poseOf :: "keyframe \<Rightarrow> pose" where
  "poseOf k = \<lparr>position = pos k, lookAt = look k\<rparr>"

definition localParam :: "keyframe \<Rightarrow> keyframe \<Rightarrow> real \<Rightarrow> real" where
  "localParam a b progress = (progress - scroll a) / (scroll b - scroll a)"

definition segmentPose :: "keyframe \<Rightarrow> keyframe \<Rightarrow> real \<Rightarrow> pose" where
  "segmentPose a b u =
     \<lparr>position = lerp3 (pos a) (pos b) u, lookAt = lerp3 (look a) (look b) u\<rparr>"

text \<open>The tweens of a path, keyframe pair by keyframe pair (used in the proofs).\<close>

fun segmentTweens :: "keyframe list \<Rightarrow> tween list" where
  "segmentTweens (prev # point # rest) =
     \<lparr>target = CameraPosition, vars = pos point,
       duration = scroll point - scroll prev, startTime = scroll prev\<rparr> #
     \<lparr>target = LookObj (look prev), vars = look point,
       duration = scroll point - scroll prev, startTime = scroll prev\<rparr> #
     segmentTweens (point # rest)"
| "segmentTweens [k] = []"
| "segmentTweens [] = []"

text \<open>
  The segment lookup by a linear scan over the path (used in the proofs): the timeline
  of a strictly increasing path is shown to compute it.
\<close>

fun pathPose :: "keyframe \<Rightarrow> keyframe list \<Rightarrow> real \<Rightarrow> pose" where
  "pathPose k [] progress = poseOf k"
| "pathPose k (k' # rest) progress =
     (if progress \<le> scroll k then poseOf k
      else if progress \<le> scroll k' then segmentPose k k' (localParam k k' progress)
      else pathPose k' rest progress)"

text \<open>The six coordinates of a pose, for speaking of continuity.\<close>

definition coordinates :: "pose \<Rightarrow> (real \<times> real \<times> real) \<times> (real \<times> real \<times> real)" where
  "coordinates c =
     ((x (position c), y (position c), z (position c)),
      (x (lookAt c), y (lookAt c), z (lookAt c)))"

section \<open>The page's state: scroll updates and resizes\<close>

text \<open>
  The camera of the page: the pose, the \<^verbatim>\<open>aspect\<close> property, and the aspect ratio that
  the projection matrix was last computed from.
\<close>

record perspectiveCamera = pose +
  aspect :: real
  projectionAspect :: real

text \<open>
  What the handlers read and write: the camera, the size of the renderer's output
  surface, and the two React states \<^verbatim>\<open>scrollProgress\<close> and \<^verbatim>\<open>currentRoom\<close>.
\<close>

record app =
  camera :: perspectiveCamera
  rendererSize :: "real \<times> real"
  scrollProgress :: real
  currentRoom :: string

text \<open>The \<^verbatim>\<open>onUpdate\<close> callback of the scroll trigger.\<close>

definition onUpdate :: "real \<Rightarrow> app \<Rightarrow> app" where
  "onUpdate progress s = s\<lparr>scrollProgress := progress, currentRoom := roomLabel progress\<rparr>"

text \<open>
  Modelled from the spec: the scroll trigger scrubs the timeline to the progress, which
  moves the camera to the interpolated pose (the library's part of a scroll update).
\<close>

definition scrubTimeline :: "real \<Rightarrow> app \<Rightarrow> error + app" where
  "scrubTimeline progress s =
     (case interpolate CAMERA_PATH progress of
        Inl e \<Rightarrow> Inl e
      | Inr c \<Rightarrow> Inr (s\<lparr>camera := (camera s)\<lparr>position := position c, lookAt := lookAt c\<rparr>\<rparr>))"

text \<open>One scroll update delivered to the page: the timeline is scrubbed, then \<^verbatim>\<open>onUpdate\<close> runs.\<close>

definition scrollUpdate :: "real \<Rightarrow> app \<Rightarrow> error + app" where
  "scrollUpdate progress s =
     (case scrubTimeline progress s of
        Inl e \<Rightarrow> Inl e
      | Inr s' \<Rightarrow> Inr (onUpdate progress s'))"

text \<open>
  \<^verbatim>\<open>camera.updateProjectionMatrix()\<close> recomputes the projection from the camera's
  \<^verbatim>\<open>aspect\<close>; \<^verbatim>\<open>renderer.setSize\<close> resizes the output surface.
\<close>

definition updateProjectionMatrix :: "perspectiveCamera \<Rightarrow> perspectiveCamera" where
  "updateProjectionMatrix c = c\<lparr>projectionAspect := aspect c\<rparr>"

definition setSize :: "real \<Rightarrow> real \<Rightarrow> app \<Rightarrow> app" where
  "setSize w h s = s\<lparr>rendererSize := (w, h)\<rparr>"

text \<open>The resize handler, for a window of the given inner width and height.\<close>

definition handleResize :: "real \<Rightarrow> real \<Rightarrow> app \<Rightarrow> app" where
  "handleResize innerWidth innerHeight s =
     (let s = s\<lparr>camera := (camera s)\<lparr>aspect := innerWidth / innerHeight\<rparr>\<rparr>;
          s = s\<lparr>camera := updateProjectionMatrix (camera s)\<rparr>
      in setSize innerWidth innerHeight s)"

section \<open>Building the scene\<close>

text \<open>
  The scene graph: a tree of objects. Each carries its kind (with the geometry and the
  material parameters of a mesh, as the source passes them to the constructors), its
  position, its rotation, its two shadow flags and its children. Every \<^verbatim>\<open>new\<close> yields a
  fresh object; the model numbers the objects from a counter that is passed along, so
  that two builds give different objects.
\<close>

datatype geometry =
    PlaneGeometry real real
  | BoxGeometry real real real
  | CylinderGeometry real real real nat
  | ConeGeometry real real nat nat bool

datatype side = DoubleSide

text \<open>
  The parameters handed to \<^verbatim>\<open>MeshStandardMaterial\<close>; \<open>None\<close> where the source gives
  none.
\<close>

record material =
  color :: nat
  roughness :: "real option"
  metalness :: "real option"
  transparent :: "bool option"
  opacity :: "real option"
  side :: "side option"

text \<open>
  \<^verbatim>\<open>Scene\<close> with its background colour and its fog (colour, near, far); \<^verbatim>\<open>PointLight\<close>
  with colour, intensity and distance; \<^verbatim>\<open>AmbientLight\<close> with colour and intensity.
\<close>

datatype kind =
    Scene nat nat real real
  | Group
  | Mesh geometry material
  | PointLight nat real real
  | AmbientLight nat real

datatype object3D =
  Object3D (objId: nat) (kind: kind) (objPosition: vec3) (rotation: vec3)
    (castShadow: bool) (receiveShadow: bool) (children: "object3D list")

text \<open>A new object: at the origin, not rotated, no shadows, no children.\<close>

definition new :: "kind \<Rightarrow> nat \<Rightarrow> object3D \<times> nat" where
  "new k n =
     (Object3D n k \<lparr>x = 0, y = 0, z = 0\<rparr> \<lparr>x = 0, y = 0, z = 0\<rparr> False False [], Suc n)"

fun setPosition :: "real \<Rightarrow> real \<Rightarrow> real \<Rightarrow> object3D \<Rightarrow> object3D" where
  "setPosition px py pz (Object3D i k p r c rs ch) =
     Object3D i k \<lparr>x = px, y = py, z = pz\<rparr> r c rs ch"

fun setPositionY :: "real \<Rightarrow> object3D \<Rightarrow> object3D" where
  "setPositionY py (Object3D i k p r c rs ch) = Object3D i k (p\<lparr>y := py\<rparr>) r c rs ch"

fun setRotationX :: "real \<Rightarrow> object3D \<Rightarrow> object3D" where
  "setRotationX rx (Object3D i k p r c rs ch) = Object3D i k p (r\<lparr>x := rx\<rparr>) c rs ch"

fun setRotationY :: "real \<Rightarrow> object3D \<Rightarrow> object3D" where
  "setRotationY ry (Object3D i k p r c rs ch) = Object3D i k p (r\<lparr>y := ry\<rparr>) c rs ch"

fun setCastShadow :: "bool \<Rightarrow> object3D \<Rightarrow> object3D" where
  "setCastShadow b (Object3D i k p r c rs ch) = Object3D i k p r b rs ch"

fun setReceiveShadow :: "bool \<Rightarrow> object3D \<Rightarrow> object3D" where
  "setReceiveShadow b (Object3D i k p r c rs ch) = Object3D i k p r c b ch"

fun add :: "object3D \<Rightarrow> object3D \<Rightarrow> object3D" where
  "add (Object3D i k p r c rs ch) child = Object3D i k p r c rs (ch @ [child])"

definition MeshStandardMaterial :: "nat \<Rightarrow> real option \<Rightarrow> real option \<Rightarrow> material" where
  "MeshStandardMaterial c r m =
     \<lparr>color = c, roughness = r, metalness = m, transparent = None, opacity = None, side = None\<rparr>"

text \<open>The helper \<^verbatim>\<open>createWall\<close> inside \<^verbatim>\<open>createRoom\<close>: it adds a wall to the room's group.\<close>

definition createWall ::
  "nat \<Rightarrow> real \<Rightarrow> real \<Rightarrow> real \<Rightarrow> real \<Rightarrow> real \<Rightarrow> real \<Rightarrow> object3D \<times> nat \<Rightarrow> object3D \<times> nat" where
  "createWall wallColor w h px py pz ry gn =
     (case gn of (grp, n) \<Rightarrow>
        let wallGeo = PlaneGeometry w h;
            wallMat = MeshStandardMaterial wallColor (Some 0.5) None;
            (wall, n) = new (Mesh wallGeo wallMat) n;
            wall = setPosition px py pz wall;
            wall = setRotationY ry wall;
            wall = setCastShadow True wall;
            wall = setReceiveShadow True wall
        in (add grp wall, n))"

text \<open>
  \<^verbatim>\<open>createRoom\<close>: floor, ceiling, back, left and right wall and a baseboard, in a group
  placed at \<open>(x, 0, z)\<close>.
\<close>

definition createRoom ::
  "real \<Rightarrow> real \<Rightarrow> real \<Rightarrow> real \<Rightarrow> real \<Rightarrow> nat \<Rightarrow> nat \<Rightarrow> nat \<Rightarrow> object3D \<times> nat" where
  "createRoom rx rz width depth height wallColor floorColor n =
     (let (grp, n) = new Group n;
          floorGeo = PlaneGeometry width depth;
          floorMat = MeshStandardMaterial floorColor (Some 0.3) (Some 0.1);
          (floorMesh, n) = new (Mesh floorGeo floorMat) n;
          floorMesh = setRotationX (- pi / 2) floorMesh;
          floorMesh = setReceiveShadow True floorMesh;
          grp = add grp floorMesh;
          ceilingGeo = PlaneGeometry width depth;
          ceilingMat = MeshStandardMaterial 0xdddddd (Some 0.8) None;
          (ceilingMesh, n) = new (Mesh ceilingGeo ceilingMat) n;
          ceilingMesh = setRotationX (pi / 2) ceilingMesh;
          ceilingMesh = setPositionY height ceilingMesh;
          grp = add grp ceilingMesh;
          (grp, n) = createWall wallColor width height 0 (height / 2) (- depth / 2) 0 (grp, n);
          (grp, n) = createWall wallColor depth height (- width / 2) (height / 2) 0 (pi / 2) (grp, n);
          (grp, n) = createWall wallColor depth height (width / 2) (height / 2) 0 (- pi / 2) (grp, n);
          baseboardMat = MeshStandardMaterial 0xc9a96e (Some 0.2) (Some 0.8);
          baseboardGeo = BoxGeometry width 0.1 0.05;
          (bbBack, n) = new (Mesh baseboardGeo baseboardMat) n;
          bbBack = setPosition 0 0.05 (- depth / 2 + 0.025) bbBack;
          grp = add grp bbBack;
          grp = setPosition rx 0 rz grp
      in (grp, n))"

text \<open>\<^verbatim>\<open>createBox\<close>: a box of furniture.\<close>

definition createBox ::
  "real \<Rightarrow> real \<Rightarrow> real \<Rightarrow> nat \<Rightarrow> real \<Rightarrow> real \<Rightarrow> real \<Rightarrow> nat \<Rightarrow> object3D \<times> nat" where
  "createBox w h d boxColor px py pz n =
     (let geo = BoxGeometry w h d;
          mat = MeshStandardMaterial boxColor (Some 0.6) None;
          (mesh, n) = new (Mesh geo mat) n;
          mesh = setPosition px py pz mesh;
          mesh = setCastShadow True mesh;
          mesh = setReceiveShadow True mesh
      in (mesh, n))"

text \<open>\<^verbatim>\<open>createLamp\<close>: a stand, a shade and a point light in a group.\<close>

definition createLamp :: "real \<Rightarrow> real \<Rightarrow> real \<Rightarrow> nat \<Rightarrow> object3D \<times> nat" where
  "createLamp px py pz n =
     (let (grp, n) = new Group n;
          (stand, n) = new (Mesh (CylinderGeometry 0.05 0.1 1.5 16)
            (MeshStandardMaterial 0xc9a96e (Some 0.2) (Some 0.8))) n;
          stand = setPositionY 0.75 stand;
          grp = add grp stand;
          (shade, n) = new (Mesh (ConeGeometry 0.3 0.4 32 1 True)
            ((MeshStandardMaterial 0xffffff None None)
               \<lparr>transparent := Some True, opacity := Some 0.9, side := Some DoubleSide\<rparr>)) n;
          shade = setPositionY 1.6 shade;
          grp = add grp shade;
          (light, n) = new (PointLight 0xffaa00 0.8 5) n;
          light = setPosition 0 1.5 0 light;
          grp = add grp light;
          grp = setPosition px py pz grp
      in (grp, n))"

text \<open>\<^verbatim>\<open>room.add(createBox(...))\<close>.\<close>

definition addBox ::
  "real \<Rightarrow> real \<Rightarrow> real \<Rightarrow> nat \<Rightarrow> real \<Rightarrow> real \<Rightarrow> real \<Rightarrow> object3D \<times> nat \<Rightarrow> object3D \<times> nat" where
  "addBox w h d boxColor px py pz rn =
     (case rn of (room, n) \<Rightarrow>
        let (box, n) = createBox w h d boxColor px py pz n in (add room box, n))"

text \<open>
  The scene and the five rooms with their furniture and lights, then the ambient light,
  in the order of the source.
\<close>

definition buildApartment :: "nat \<Rightarrow> object3D \<times> nat" where
  "buildApartment n =
     (let (scene, n) = new (Scene 0xf9f9f9 0xf9f9f9 5 30) n;
          (foyer, n) = createRoom 0 6 4 12 3.5 0xf5f5f5 0xe0e0e0 n;
          (foyer, n) = addBox 1.5 0.8 0.4 0x8d6e63 1 0.4 (- 2) (foyer, n);
          (mirror, n) = new (Mesh (PlaneGeometry 1.2 2)
            (MeshStandardMaterial 0xffffff (Some 0.1) (Some 0.9))) n;
          mirror = setPosition 1 2 (- 1.75) mirror;
          foyer = add foyer mirror;
          (foyerLight, n) = new (PointLight 0xffaa00 0.8 10) n;
          foyerLight = setPosition 0 3 0 foyerLight;
          foyer = add foyer foyerLight;
          scene = add scene foyer;
          (livingRoom, n) = createRoom (- 4) (- 2) 8 8 3.5 0xffffff 0xd9d9d9 n;
          (livingRoom, n) = addBox 3 0.6 1 0xaaddcc (- 1) 0.3 (- 2) (livingRoom, n);
          (livingRoom, n) = addBox 1 0.6 2 0xaaddcc 1 0.3 (- 1.5) (livingRoom, n);
          (livingRoom, n) = addBox 1.2 0.4 0.8 0xf5f5f5 (- 0.5) 0.2 (- 0.5) (livingRoom, n);
          (livingRoom, n) = addBox 3 2 0.1 0xeeeeee (- 1) 1.5 3.9 (livingRoom, n);
          (lamp, n) = createLamp (- 3) 0 (- 3) n;
          livingRoom = add livingRoom lamp;
          scene = add scene livingRoom;
          (bedroom, n) = createRoom (- 8) (- 8) 7 7 3.2 0xf0f8ff 0xd2b48c n;
          (bedroom, n) = addBox 2 0.5 2.5 0xffffff 0 0.25 0 (bedroom, n);
          (bedroom, n) = addBox 2.2 1 0.2 0x8b4513 0 0.5 (- 1.3) (bedroom, n);
          (bedroom, n) = addBox 0.5 0.5 0.5 0xffffff (- 1.5) 0.25 (- 1) (bedroom, n);
          (bedroom, n) = addBox 0.5 0.5 0.5 0xffffff 1.5 0.25 (- 1) (bedroom, n);
          (bedLight1, n) = new (PointLight 0xffaa55 0.8 8) n;
          bedLight1 = setPosition (- 1.5) 1 (- 1) bedLight1;
          bedroom = add bedroom bedLight1;
          scene = add scene bedroom;
          (kitchen, n) = createRoom (- 4) (- 14) 8 8 3.5 0xffffff 0xcccccc n;
          (kitchen, n) = addBox 2.5 0.9 1.2 0xffffff 0 0.45 0 (kitchen, n);
          (kitchen, n) = addBox 8 0.9 0.8 0xe0e0e0 0 0.45 (- 3.6) (kitchen, n);
          (kitchen, n) = addBox 8 0.8 0.4 0xffffff 0 2.5 (- 3.6) (kitchen, n);
          (kitchenLight, n) = new (PointLight 0xffffff 1.0 12) n;
          kitchenLight = setPosition 0 3 0 kitchenLight;
          kitchen = add kitchen kitchenLight;
          scene = add scene kitchen;
          (study, n) = createRoom (- 4) (- 22) 6 6 3.2 0xf5f5dc 0xc0c0c0 n;
          (study, n) = addBox 2 0.05 0.8 0xcd853f 0 0.75 (- 1) (study, n);
          (study, n) = addBox 0.05 0.75 0.05 0x333333 (- 0.9) 0.375 (- 1) (study, n);
          (study, n) = addBox 0.05 0.75 0.05 0x333333 0.9 0.375 (- 1) (study, n);
          (study, n) = addBox 3 2.5 0.4 0xffffff (- 2.5) 1.25 0 (study, n);
          (lamp, n) = createLamp 0.8 0.75 (- 1) n;
          study = add study lamp;
          scene = add scene study;
          (ambientLight, n) = new (AmbientLight 0xffffff 0.6) n;
          scene = add scene ambientLight
      in (scene, n))"

text \<open>
  The structure of a graph: the graph with the identities of its objects erased. Kinds,
  geometries, material parameters, positions, rotations, shadow flags and the order of
  the children are kept.
\<close>

fun shape :: "object3D \<Rightarrow> object3D" where
  "shape (Object3D i k p r c rs ch) = Object3D 0 k p r c rs (map shape ch)"

fun nodeCount :: "object3D \<Rightarrow> nat" where
  "nodeCount (Object3D i k p r c rs ch) = Suc (sum_list (map nodeCount ch))"

fun objIds :: "object3D \<Rightarrow> nat list" where
  "objIds (Object3D i k p r c rs ch) = i # concat (map objIds ch)"

section \<open>Properties\<close>

lemma ROOM_NAMES_distinct: "distinct ROOM_NAMES"
  by (simp add: ROOM_NAMES_def)

text \<open>
  C3: the room label is chosen by fixed, non-overlapping thresholds. There are five
  pairwise different room names; every progress in [0,1] selects one of them, which one
  being decided by the bucket progress falls into: below 0.2 the first, from 0.2 below 0.4
  the second, from 0.4 below 0.6 the third, from 0.6 below 0.8 the fourth, from 0.8 on the
  fifth; and each of the five buckets is reached by some progress in [0,1], so the
  buckets are as many as the rooms.
\<close>

theorem roomLabel_partition:
  "length ROOM_NAMES = 5 \<and> distinct ROOM_NAMES \<and>
   (\<forall>p. 0 \<le> p \<and> p \<le> 1 \<longrightarrow>
      (\<exists>!i. i < length ROOM_NAMES \<and> roomLabel p = ROOM_NAMES ! i) \<and>
      (roomLabel p = ROOM_NAMES ! 0 \<longleftrightarrow> p < 0.2) \<and>
      (roomLabel p = ROOM_NAMES ! 1 \<longleftrightarrow> 0.2 \<le> p \<and> p < 0.4) \<and>
      (roomLabel p = ROOM_NAMES ! 2 \<longleftrightarrow> 0.4 \<le> p \<and> p < 0.6) \<and>
      (roomLabel p = ROOM_NAMES ! 3 \<longleftrightarrow> 0.6 \<le> p \<and> p < 0.8) \<and>
      (roomLabel p = ROOM_NAMES ! 4 \<longleftrightarrow> 0.8 \<le> p)) \<and>
   roomLabel ` {0..1} = set ROOM_NAMES"
proof (intro conjI allI impI)
  show "length ROOM_NAMES = 5" by (simp add: ROOM_NAMES_def)
  show "distinct ROOM_NAMES" by (rule ROOM_NAMES_distinct)
next
  fix p :: real
  assume "0 \<le> p \<and> p \<le> 1"
  have len: "length ROOM_NAMES = 5" by (simp add: ROOM_NAMES_def)
  have "\<exists>i. i < length ROOM_NAMES \<and> roomLabel p = ROOM_NAMES ! i"
  proof -
    have "roomLabel p = ROOM_NAMES ! 0 \<or> roomLabel p = ROOM_NAMES ! 1 \<or>
        roomLabel p = ROOM_NAMES ! 2 \<or> roomLabel p = ROOM_NAMES ! 3 \<or>
        roomLabel p = ROOM_NAMES ! 4"
      by (simp add: roomLabel_def)
    moreover have "(0::nat) < 5" "(1::nat) < 5" "(2::nat) < 5" "(3::nat) < 5" "(4::nat) < 5"
      by simp_all
    ultimately show ?thesis unfolding len by blast
  qed
  moreover have "\<And>i j. i < length ROOM_NAMES \<Longrightarrow> j < length ROOM_NAMES \<Longrightarrow>
      ROOM_NAMES ! i = ROOM_NAMES ! j \<Longrightarrow> i = j"
    using ROOM_NAMES_distinct by (simp add: nth_eq_iff_index_eq)
  ultimately show "\<exists>!i. i < length ROOM_NAMES \<and> roomLabel p = ROOM_NAMES ! i"
    by metis
  show "roomLabel p = ROOM_NAMES ! 0 \<longleftrightarrow> p < 0.2"
    by (simp add: roomLabel_def ROOM_NAMES_def)
  show "roomLabel p = ROOM_NAMES ! 1 \<longleftrightarrow> 0.2 \<le> p \<and> p < 0.4"
    by (simp add: roomLabel_def ROOM_NAMES_def)
  show "roomLabel p = ROOM_NAMES ! 2 \<longleftrightarrow> 0.4 \<le> p \<and> p < 0.6"
    by (simp add: roomLabel_def ROOM_NAMES_def)
  show "roomLabel p = ROOM_NAMES ! 3 \<longleftrightarrow> 0.6 \<le> p \<and> p < 0.8"
    by (simp add: roomLabel_def ROOM_NAMES_def)
  show "roomLabel p = ROOM_NAMES ! 4 \<longleftrightarrow> 0.8 \<le> p"
    by (simp add: roomLabel_def ROOM_NAMES_def)
next
  show "roomLabel ` {0..1} = set ROOM_NAMES"
  proof
    show "roomLabel ` {0..1} \<subseteq> set ROOM_NAMES"
      by (auto simp: roomLabel_def ROOM_NAMES_def)
    have "roomLabel 0 \<in> roomLabel ` {0..1}" "roomLabel 0.3 \<in> roomLabel ` {0..1}"
      "roomLabel 0.5 \<in> roomLabel ` {0..1}" "roomLabel 0.7 \<in> roomLabel ` {0..1}"
      "roomLabel 1 \<in> roomLabel ` {0..1}"
      by simp_all
    then show "set ROOM_NAMES \<subseteq> roomLabel ` {0..1}"
      by (simp add: roomLabel_def ROOM_NAMES_def)
  qed
qed

theorem roomLabel_partition_witness:
  "(0::real) \<le> 0.5 \<and> (0.5::real) \<le> 1 \<and> roomLabel 0.5 = ''The Master Suite'' \<and>
   roomLabel 0.2 = ''The Living Room'' \<and> roomLabel 1 = ''The Private Study''"
proof -
  have h: "(0::real) \<le> 0.5 \<and> (0.5::real) \<le> 1" by simp
  have "roomLabel 0.5 = ROOM_NAMES ! 2 \<longleftrightarrow> (0.4::real) \<le> 0.5 \<and> (0.5::real) < 0.6"
    using roomLabel_partition h by blast
  then have "roomLabel 0.5 = ROOM_NAMES ! 2" by simp
  then show ?thesis by (simp add: roomLabel_def ROOM_NAMES_def)
qed

text \<open>
  C6: the program's camera path satisfies the CameraPath invariant: it has at least two
  keyframes (ten), its scroll values are strictly increasing, hence pairwise different,
  the first keyframe is at 0 and the last at 1.
\<close>

theorem CAMERA_PATH_valid:
  "validPath CAMERA_PATH \<and> length CAMERA_PATH = 10 \<and> distinct (map scroll CAMERA_PATH)"
  by (simp add: validPath_def CAMERA_PATH_def)

subsection \<open>The timeline computes the segment lookup\<close>

lemma mapPoint_0:
  "mapPoint path s (0, point) = Inr (s\<lparr>cam := poseOf point\<rparr>)"
  by (simp add: mapPoint_def poseOf_def)

lemma mapPoint_Suc:
  "arrayGet path i = Some prev \<Longrightarrow>
   mapPoint path s (Suc i, point) =
     Inr (s\<lparr>timeline := timeline s @
       [\<lparr>target = CameraPosition, vars = pos point,
         duration = scroll point - scroll prev, startTime = scroll prev\<rparr>,
        \<lparr>target = LookObj (look prev), vars = look point,
         duration = scroll point - scroll prev, startTime = scroll prev\<rparr>]\<rparr>)"
  by (simp add: mapPoint_def Let_def)

lemma renderTween_untouched: "progress < startTime tw \<Longrightarrow> renderTween progress c tw = c"
  by (simp add: renderTween_def)

lemma forEach_mapPoint_suffix:
  "forEach (mapPoint (pre @ prev # rest)) (enumerate (Suc (length pre)) rest) s =
     Inr (s\<lparr>timeline := timeline s @ segmentTweens (prev # rest)\<rparr>)"
proof (induction rest arbitrary: pre prev s)
  case Nil
  show ?case by simp
next
  case (Cons point rest)
  have get: "arrayGet (pre @ prev # point # rest) (length pre) = Some prev"
    by (simp add: arrayGet_def)
  have step: "forEach (mapPoint ((pre @ [prev]) @ point # rest))
      (enumerate (Suc (length (pre @ [prev]))) rest) s' =
      Inr (s'\<lparr>timeline := timeline s' @ segmentTweens (point # rest)\<rparr>)" for s'
    by (rule Cons.IH)
  show ?case
    using step by (simp add: mapPoint_Suc [OF get])
qed

lemma mapCameraPath_Nil: "mapCameraPath [] s = Inr s"
  by (simp add: mapCameraPath_def)

lemma mapCameraPath_Cons:
  "mapCameraPath (k # ks) s =
     Inr \<lparr>cam = poseOf k, timeline = timeline s @ segmentTweens (k # ks)\<rparr>"
  using forEach_mapPoint_suffix [of "[]" k ks]
  by (simp add: mapCameraPath_def mapPoint_0)

lemma render_untouched:
  "strictlyIncreasing (k # ks) \<Longrightarrow> progress < scroll k \<Longrightarrow>
   foldl (renderTween progress) c (segmentTweens (k # ks)) = c"
proof (induction ks arbitrary: k)
  case Nil
  show ?case by simp
next
  case (Cons k' rest)
  then have "progress < scroll k'" "strictlyIncreasing (k' # rest)" by simp_all
  then have "foldl (renderTween progress) c (segmentTweens (k' # rest)) = c"
    by (simp add: Cons.IH)
  then show ?case using Cons.prems by (simp add: renderTween_untouched)
qed

lemma lerp3_0: "lerp3 a b 0 = a"
  by (simp add: lerp3_def lerp_def)

lemma lerp3_1: "lerp3 a b 1 = b"
  by (simp add: lerp3_def lerp_def)

lemma pathPose_before: "progress \<le> scroll k \<Longrightarrow> pathPose k ks progress = poseOf k"
  by (cases ks) simp_all

lemma render_pathPose:
  "strictlyIncreasing (k # ks) \<Longrightarrow>
   foldl (renderTween progress) (poseOf k) (segmentTweens (k # ks)) = pathPose k ks progress"
proof (induction ks arbitrary: k)
  case Nil
  show ?case by simp
next
  case (Cons k' rest)
  have lt: "scroll k < scroll k'" and inc: "strictlyIncreasing (k' # rest)"
    using Cons.prems by simp_all
  let ?two = "renderTween progress (renderTween progress (poseOf k)
      \<lparr>target = CameraPosition, vars = pos k',
        duration = scroll k' - scroll k, startTime = scroll k\<rparr>)
      \<lparr>target = LookObj (look k), vars = look k',
        duration = scroll k' - scroll k, startTime = scroll k\<rparr>"
  have unfold: "foldl (renderTween progress) (poseOf k) (segmentTweens (k # k' # rest)) =
      foldl (renderTween progress) ?two (segmentTweens (k' # rest))"
    by simp
  consider (before) "progress \<le> scroll k" | (inside) "scroll k < progress" "progress < scroll k'"
    | (after) "scroll k' \<le> progress"
    by linarith
  then show ?case
  proof cases
    case before
    have "?two = poseOf k"
      using before lt by (auto simp: renderTween_def tweenRatio_def poseOf_def lerp3_0)
    moreover have "progress < scroll k'" using before lt by simp
    ultimately show ?thesis
      unfolding unfold using inc before by (simp add: render_untouched)
  next
    case inside
    have "?two = segmentPose k k' (localParam k k' progress)"
      using inside
      by (simp add: renderTween_def tweenRatio_def poseOf_def segmentPose_def localParam_def)
    then show ?thesis
      unfolding unfold using inc inside by (simp add: render_untouched)
  next
    case after
    have two: "?two = poseOf k'"
      using after lt by (simp add: renderTween_def tweenRatio_def poseOf_def lerp3_1)
    have "foldl (renderTween progress) (poseOf k') (segmentTweens (k' # rest)) =
        pathPose k' rest progress"
      using inc by (rule Cons.IH)
    moreover have "pathPose k (k' # rest) progress = pathPose k' rest progress"
    proof (cases "progress = scroll k'")
      case True
      then show ?thesis
        using lt by (simp add: pathPose_before segmentPose_def localParam_def lerp3_1 poseOf_def)
    next
      case False
      then show ?thesis using after lt by simp
    qed
    ultimately show ?thesis unfolding unfold two by simp
  qed
qed

lemma strictlyIncreasing_nth:
  "strictlyIncreasing (k # ks) \<Longrightarrow> j < length ks \<Longrightarrow> scroll k < scroll (ks ! j)"
proof (induction ks arbitrary: k j)
  case Nil
  then show ?case by simp
next
  case (Cons k' rest)
  show ?case
  proof (cases j)
    case 0
    then show ?thesis using Cons.prems by simp
  next
    case (Suc j')
    then have "scroll k' < scroll (rest ! j')" using Cons.prems Cons.IH by simp
    then show ?thesis using Cons.prems Suc by simp
  qed
qed

lemma pathPose_segment:
  "strictlyIncreasing (k # ks) \<Longrightarrow> Suc i < length (k # ks) \<Longrightarrow>
   scroll ((k # ks) ! i) \<le> progress \<Longrightarrow> progress \<le> scroll ((k # ks) ! Suc i) \<Longrightarrow>
   pathPose k ks progress =
     segmentPose ((k # ks) ! i) ((k # ks) ! Suc i)
       (localParam ((k # ks) ! i) ((k # ks) ! Suc i) progress)"
proof (induction ks arbitrary: k i)
  case Nil
  then show ?case by simp
next
  case (Cons k' rest)
  have lt: "scroll k < scroll k'" and inc: "strictlyIncreasing (k' # rest)"
    using Cons.prems by simp_all
  show ?case
  proof (cases i)
    case 0
    then show ?thesis
      using Cons.prems lt
      by (auto simp: segmentPose_def localParam_def lerp3_0 poseOf_def)
  next
    case (Suc j)
    have j: "Suc j < length (k' # rest)" using Cons.prems Suc by simp
    have lo: "scroll ((k' # rest) ! j) \<le> progress" using Cons.prems Suc by simp
    have hi: "progress \<le> scroll ((k' # rest) ! Suc j)" using Cons.prems Suc by simp
    have IH: "pathPose k' rest progress =
        segmentPose ((k' # rest) ! j) ((k' # rest) ! Suc j)
          (localParam ((k' # rest) ! j) ((k' # rest) ! Suc j) progress)"
      using inc j lo hi by (rule Cons.IH)
    have ge: "scroll k' \<le> progress"
    proof (cases j)
      case 0
      then show ?thesis using lo by simp
    next
      case (Suc j')
      then have "scroll k' < scroll (rest ! j')"
        using strictlyIncreasing_nth [OF inc] j by simp
      then show ?thesis using lo Suc by simp
    qed
    show ?thesis
    proof (cases "progress = scroll k'")
      case True
      have "pathPose k (k' # rest) progress = poseOf k'"
        using True lt by (simp add: segmentPose_def localParam_def lerp3_1 poseOf_def)
      moreover have "pathPose k' rest progress = poseOf k'"
        using True by (simp add: pathPose_before)
      ultimately show ?thesis using IH Suc by simp
    next
      case False
      then have "pathPose k (k' # rest) progress = pathPose k' rest progress"
        using ge lt by simp
      then show ?thesis using IH Suc by simp
    qed
  qed
qed

lemma pathPose_after:
  "strictlyIncreasing (k # ks) \<Longrightarrow> scroll (last (k # ks)) \<le> progress \<Longrightarrow>
   pathPose k ks progress = poseOf (last (k # ks))"
proof (induction ks arbitrary: k)
  case Nil
  show ?case by simp
next
  case (Cons k' rest)
  have lt: "scroll k < scroll k'" and inc: "strictlyIncreasing (k' # rest)"
    using Cons.prems by simp_all
  have last: "scroll (last (k' # rest)) \<le> progress" using Cons.prems by simp
  have ge: "scroll k' \<le> scroll (last (k' # rest))"
  proof (cases rest rule: rev_cases)
    case Nil
    then show ?thesis by simp
  next
    case (snoc ys l)
    then have "scroll k' < scroll (rest ! (length rest - 1))"
      using strictlyIncreasing_nth [OF inc, of "length rest - 1"] by simp
    then show ?thesis using snoc by (simp add: nth_append)
  qed
  have IH: "pathPose k' rest progress = poseOf (last (k' # rest))"
    using inc last by (rule Cons.IH)
  show ?case
  proof (cases "progress = scroll k'")
    case True
    have "pathPose k (k' # rest) progress = poseOf k'"
      using True lt by (simp add: segmentPose_def localParam_def lerp3_1 poseOf_def)
    moreover have "pathPose k' rest progress = poseOf k'"
      using True by (simp add: pathPose_before)
    ultimately show ?thesis using IH by simp
  next
    case False
    then have "pathPose k (k' # rest) progress = pathPose k' rest progress"
      using ge last lt by simp
    then show ?thesis using IH by simp
  qed
qed

lemma foldl_max_segmentTweens:
  "strictlyIncreasing (k # ks) \<Longrightarrow>
   foldl max a (map (\<lambda>tw. startTime tw + duration tw) (segmentTweens (k # ks))) =
     (if ks = [] then a else max a (scroll (last ks)))"
proof (induction ks arbitrary: k a)
  case Nil
  show ?case by simp
next
  case (Cons k' rest)
  have lt: "scroll k < scroll k'" and inc: "strictlyIncreasing (k' # rest)"
    using Cons.prems by simp_all
  have step: "foldl max a (map (\<lambda>tw. startTime tw + duration tw)
        (segmentTweens (k # k' # rest))) =
      foldl max (max a (scroll k')) (map (\<lambda>tw. startTime tw + duration tw)
        (segmentTweens (k' # rest)))"
    by simp
  have IH: "foldl max (max a (scroll k')) (map (\<lambda>tw. startTime tw + duration tw)
        (segmentTweens (k' # rest))) =
      (if rest = [] then max a (scroll k') else max (max a (scroll k')) (scroll (last rest)))"
    using inc by (rule Cons.IH)
  show ?case
  proof (cases "rest = []")
    case True
    then show ?thesis using step IH by simp
  next
    case False
    then have "scroll k' < scroll (rest ! (length rest - 1))"
      using strictlyIncreasing_nth [OF inc, of "length rest - 1"] by simp
    then have "scroll k' < scroll (last rest)"
      using False by (simp add: last_conv_nth)
    then show ?thesis using step IH False by simp
  qed
qed

lemma timelineDuration_segmentTweens:
  "strictlyIncreasing (k # ks) \<Longrightarrow>
   timelineDuration (segmentTweens (k # ks)) =
     (if ks = [] then 0 else max 0 (scroll (last ks)))"
  unfolding timelineDuration_def by (rule foldl_max_segmentTweens)

lemma interpolate_Cons:
  "strictlyIncreasing (k # ks) \<Longrightarrow>
   interpolate (k # ks) progress =
     Inr (pathPose k ks (clamp01 progress * timelineDuration (segmentTweens (k # ks))))"
  by (simp add: interpolate_def mapCameraPath_Cons renderTimeline_def render_pathPose)

lemma interpolate_single: "interpolate [k] progress = Inr (poseOf k)"
  using interpolate_Cons [of k "[]" progress] by simp

lemma interpolate_unit:
  "strictlyIncreasing (k # ks) \<Longrightarrow> scroll (last (k # ks)) = 1 \<Longrightarrow>
   interpolate (k # ks) progress = Inr (pathPose k ks (clamp01 progress))"
  by (cases "ks = []") (simp_all add: interpolate_Cons timelineDuration_segmentTweens)

subsection \<open>The interpolated pose\<close>

lemma strictlyIncreasing_CAMERA_PATH: "strictlyIncreasing CAMERA_PATH"
  by (simp add: CAMERA_PATH_def)

text \<open>
  The timeline of the program's path ends at 1: there the scroll trigger moves the
  playhead to the progress itself.
\<close>

lemma timelineDuration_CAMERA_PATH:
  "mapCameraPath CAMERA_PATH \<lparr>cam = newCamera, timeline = []\<rparr> = Inr s \<Longrightarrow>
   timelineDuration (timeline s) = 1"
  by (auto simp: CAMERA_PATH_def mapCameraPath_Cons timelineDuration_def)

lemma interpolate_Nil: "interpolate [] progress = Inr newCamera"
  by (simp add: interpolate_def mapCameraPath_Nil renderTimeline_def)

lemma interpolate_stretched_aux:
  assumes inc: "strictlyIncreasing path" and i: "Suc i < length path"
    and unit: "0 \<le> progress" "progress \<le> 1" and pos: "0 \<le> scroll (last path)"
    and lo: "scroll (path ! i) \<le> progress * scroll (last path)"
    and hi: "progress * scroll (last path) \<le> scroll (path ! Suc i)"
  shows "interpolate path progress =
    Inr (segmentPose (path ! i) (path ! Suc i)
      (localParam (path ! i) (path ! Suc i) (progress * scroll (last path))))"
proof -
  obtain k ks where path: "path = k # ks" using i by (cases path) auto
  have ks: "ks \<noteq> []" using i path by auto
  have "timelineDuration (segmentTweens (k # ks)) = scroll (last path)"
    using inc pos ks by (simp add: path timelineDuration_segmentTweens)
  moreover have "clamp01 progress = progress" using unit by (simp add: clamp01_def)
  ultimately have "interpolate path progress = Inr (pathPose k ks (progress * scroll (last path)))"
    using inc by (simp add: path interpolate_Cons)
  also have "pathPose k ks (progress * scroll (last path)) =
      segmentPose (path ! i) (path ! Suc i)
        (localParam (path ! i) (path ! Suc i) (progress * scroll (last path)))"
    using inc i lo hi unfolding path by (rule pathPose_segment)
  finally show ?thesis .
qed

lemma interpolate_segment_aux:
  assumes inc: "strictlyIncreasing path" and i: "Suc i < length path"
    and last: "scroll (last path) = 1"
    and lo: "scroll (path ! i) \<le> progress" and hi: "progress \<le> scroll (path ! Suc i)"
    and unit: "0 \<le> progress" "progress \<le> 1"
  shows "interpolate path progress =
    Inr (segmentPose (path ! i) (path ! Suc i) (localParam (path ! i) (path ! Suc i) progress))"
  using interpolate_stretched_aux [OF inc i unit, unfolded last] lo hi by simp

text \<open>
  C1, as the program has it: the scroll trigger stretches the timeline over the whole
  scroll range, so progress is compared with the keyframes' scroll values only on a path
  that ends at 1, as the program's does. On every path with strictly increasing scroll
  values whose last keyframe is at 1, at every progress in [0,1] between the scroll values
  of two consecutive keyframes, the interpolated pose is the component-wise linear
  interpolation \<open>a + (b - a) * u\<close> of the two keyframes' positions and of their look-at
  points, at the local parameter \<open>u = (progress - t\<^sub>i) / (t\<^sub>i\<^sub>+\<^sub>1 - t\<^sub>i)\<close>. On a path that
  ends at another value \<open>t\<^sub>n \<ge> 0\<close> the same holds with \<open>progress * t\<^sub>n\<close> in the place of
  progress. So the scenario's path, which ends at 0.35, gives position (0, 1.6, 10.95) at
  progress 0.075 and (0, 1.6, 8.5) at progress 0.25; completed by the program's last
  keyframe at 1 it gives the scenario's values, position (0, 1.6, 9) with look-at point
  (0, 1.6, 0) at 0.075 and position (-2, 1.6, 2) at 0.25.
\<close>

theorem interpolate_segment:
  "(\<forall>path i progress.
      strictlyIncreasing path \<and> Suc i < length path \<and> scroll (last path) = 1 \<and>
      scroll (path ! i) \<le> progress \<and> progress \<le> scroll (path ! Suc i) \<and>
      0 \<le> progress \<and> progress \<le> 1 \<longrightarrow>
      interpolate path progress =
        Inr \<lparr>position = lerp3 (pos (path ! i)) (pos (path ! Suc i))
                ((progress - scroll (path ! i)) / (scroll (path ! Suc i) - scroll (path ! i))),
             lookAt = lerp3 (look (path ! i)) (look (path ! Suc i))
                ((progress - scroll (path ! i)) / (scroll (path ! Suc i) - scroll (path ! i)))\<rparr>) \<and>
   (\<forall>path i progress.
      strictlyIncreasing path \<and> Suc i < length path \<and> 0 \<le> scroll (last path) \<and>
      scroll (path ! i) \<le> progress * scroll (last path) \<and>
      progress * scroll (last path) \<le> scroll (path ! Suc i) \<and>
      0 \<le> progress \<and> progress \<le> 1 \<longrightarrow>
      interpolate path progress =
        Inr \<lparr>position = lerp3 (pos (path ! i)) (pos (path ! Suc i))
                ((progress * scroll (last path) - scroll (path ! i)) /
                 (scroll (path ! Suc i) - scroll (path ! i))),
             lookAt = lerp3 (look (path ! i)) (look (path ! Suc i))
                ((progress * scroll (last path) - scroll (path ! i)) /
                 (scroll (path ! Suc i) - scroll (path ! i)))\<rparr>) \<and>
   (\<forall>a b u. lerp3 a b u =
      \<lparr>x = x a + (x b - x a) * u, y = y a + (y b - y a) * u, z = z a + (z b - z a) * u\<rparr>) \<and>
   interpolate scenarioPath 0.075 =
     Inr \<lparr>position = \<lparr>x = 0, y = 1.6, z = 10.95\<rparr>, lookAt = \<lparr>x = 0, y = 1.6, z = 0\<rparr>\<rparr> \<and>
   interpolate scenarioPath 0.25 =
     Inr \<lparr>position = \<lparr>x = 0, y = 1.6, z = 8.5\<rparr>, lookAt = \<lparr>x = 0, y = 1.6, z = 0\<rparr>\<rparr> \<and>
   interpolate (scenarioPath @ [CAMERA_PATH ! 9]) 0.075 =
     Inr \<lparr>position = \<lparr>x = 0, y = 1.6, z = 9.0\<rparr>, lookAt = \<lparr>x = 0, y = 1.6, z = 0\<rparr>\<rparr> \<and>
   interpolate (scenarioPath @ [CAMERA_PATH ! 9]) 0.25 =
     Inr \<lparr>position = \<lparr>x = -2, y = 1.6, z = 2.0\<rparr>, lookAt = \<lparr>x = -4, y = 1.6, z = -1\<rparr>\<rparr>"
proof (intro conjI allI impI)
  fix path i progress
  assume "strictlyIncreasing path \<and> Suc i < length path \<and> scroll (last path) = 1 \<and>
      scroll (path ! i) \<le> progress \<and> progress \<le> scroll (path ! Suc i) \<and>
      0 \<le> progress \<and> progress \<le> 1"
  then have "interpolate path progress =
      Inr (segmentPose (path ! i) (path ! Suc i)
        (localParam (path ! i) (path ! Suc i) progress))"
    by (intro interpolate_segment_aux) simp_all
  then show "interpolate path progress =
        Inr \<lparr>position = lerp3 (pos (path ! i)) (pos (path ! Suc i))
                ((progress - scroll (path ! i)) / (scroll (path ! Suc i) - scroll (path ! i))),
             lookAt = lerp3 (look (path ! i)) (look (path ! Suc i))
                ((progress - scroll (path ! i)) / (scroll (path ! Suc i) - scroll (path ! i)))\<rparr>"
    by (simp add: segmentPose_def localParam_def)
next
  fix path i progress
  assume "strictlyIncreasing path \<and> Suc i < length path \<and> 0 \<le> scroll (last path) \<and>
      scroll (path ! i) \<le> progress * scroll (last path) \<and>
      progress * scroll (last path) \<le> scroll (path ! Suc i) \<and>
      0 \<le> progress \<and> progress \<le> 1"
  then have "interpolate path progress =
      Inr (segmentPose (path ! i) (path ! Suc i)
        (localParam (path ! i) (path ! Suc i) (progress * scroll (last path))))"
    by (intro interpolate_stretched_aux) simp_all
  then show "interpolate path progress =
        Inr \<lparr>position = lerp3 (pos (path ! i)) (pos (path ! Suc i))
                ((progress * scroll (last path) - scroll (path ! i)) /
                 (scroll (path ! Suc i) - scroll (path ! i))),
             lookAt = lerp3 (look (path ! i)) (look (path ! Suc i))
                ((progress * scroll (last path) - scroll (path ! i)) /
                 (scroll (path ! Suc i) - scroll (path ! i)))\<rparr>"
    by (simp add: segmentPose_def localParam_def)
next
  fix a b u
  show "lerp3 a b u =
      \<lparr>x = x a + (x b - x a) * u, y = y a + (y b - y a) * u, z = z a + (z b - z a) * u\<rparr>"
    by (simp add: lerp3_def lerp_def)
next
  have inc: "strictlyIncreasing scenarioPath" by (simp add: scenarioPath_def)
  have "interpolate scenarioPath 0.075 =
      Inr (segmentPose (scenarioPath ! 0) (scenarioPath ! Suc 0)
        (localParam (scenarioPath ! 0) (scenarioPath ! Suc 0)
          (0.075 * scroll (last scenarioPath))))"
    by (rule interpolate_stretched_aux [OF inc]) (simp_all add: scenarioPath_def)
  then show "interpolate scenarioPath 0.075 =
     Inr \<lparr>position = \<lparr>x = 0, y = 1.6, z = 10.95\<rparr>, lookAt = \<lparr>x = 0, y = 1.6, z = 0\<rparr>\<rparr>"
    by (simp add: scenarioPath_def segmentPose_def localParam_def lerp3_def lerp_def)
  have "interpolate scenarioPath 0.25 =
      Inr (segmentPose (scenarioPath ! 0) (scenarioPath ! Suc 0)
        (localParam (scenarioPath ! 0) (scenarioPath ! Suc 0)
          (0.25 * scroll (last scenarioPath))))"
    by (rule interpolate_stretched_aux [OF inc]) (simp_all add: scenarioPath_def)
  then show "interpolate scenarioPath 0.25 =
     Inr \<lparr>position = \<lparr>x = 0, y = 1.6, z = 8.5\<rparr>, lookAt = \<lparr>x = 0, y = 1.6, z = 0\<rparr>\<rparr>"
    by (simp add: scenarioPath_def segmentPose_def localParam_def lerp3_def lerp_def)
next
  let ?path = "scenarioPath @ [CAMERA_PATH ! 9]"
  have inc: "strictlyIncreasing ?path" by (simp add: scenarioPath_def CAMERA_PATH_def)
  have "interpolate ?path 0.075 =
      Inr (segmentPose (?path ! 0) (?path ! Suc 0)
        (localParam (?path ! 0) (?path ! Suc 0) 0.075))"
    by (rule interpolate_segment_aux [OF inc]) (simp_all add: scenarioPath_def CAMERA_PATH_def)
  then show "interpolate ?path 0.075 =
     Inr \<lparr>position = \<lparr>x = 0, y = 1.6, z = 9.0\<rparr>, lookAt = \<lparr>x = 0, y = 1.6, z = 0\<rparr>\<rparr>"
    by (simp add: scenarioPath_def segmentPose_def localParam_def lerp3_def lerp_def)
  have "interpolate ?path 0.25 =
      Inr (segmentPose (?path ! 1) (?path ! Suc 1)
        (localParam (?path ! 1) (?path ! Suc 1) 0.25))"
    by (rule interpolate_segment_aux [OF inc]) (simp_all add: scenarioPath_def CAMERA_PATH_def)
  then show "interpolate ?path 0.25 =
     Inr \<lparr>position = \<lparr>x = -2, y = 1.6, z = 2.0\<rparr>, lookAt = \<lparr>x = -4, y = 1.6, z = -1\<rparr>\<rparr>"
    by (simp add: scenarioPath_def segmentPose_def localParam_def lerp3_def lerp_def)
qed

theorem interpolate_segment_witness:
  "strictlyIncreasing CAMERA_PATH \<and> Suc 4 < length CAMERA_PATH \<and>
   scroll (last CAMERA_PATH) = 1 \<and>
   scroll (CAMERA_PATH ! 4) \<le> 0.5 \<and> 0.5 \<le> scroll (CAMERA_PATH ! Suc 4) \<and>
   (0::real) \<le> 0.5 \<and> (0.5::real) \<le> 1 \<and>
   interpolate CAMERA_PATH 0.5 =
     Inr \<lparr>position = \<lparr>x = -8, y = 1.6, z = -5\<rparr>, lookAt = \<lparr>x = -6, y = 1.6, z = -9\<rparr>\<rparr>"
proof -
  have h: "strictlyIncreasing CAMERA_PATH \<and> Suc 4 < length CAMERA_PATH \<and>
      scroll (last CAMERA_PATH) = 1 \<and>
      scroll (CAMERA_PATH ! 4) \<le> 0.5 \<and> 0.5 \<le> scroll (CAMERA_PATH ! Suc 4) \<and>
      (0::real) \<le> 0.5 \<and> (0.5::real) \<le> 1"
    by (simp add: CAMERA_PATH_def)
  from interpolate_segment have "\<forall>path i progress.
      strictlyIncreasing path \<and> Suc i < length path \<and> scroll (last path) = 1 \<and>
      scroll (path ! i) \<le> progress \<and> progress \<le> scroll (path ! Suc i) \<and>
      0 \<le> progress \<and> progress \<le> 1 \<longrightarrow>
      interpolate path progress =
        Inr \<lparr>position = lerp3 (pos (path ! i)) (pos (path ! Suc i))
                ((progress - scroll (path ! i)) / (scroll (path ! Suc i) - scroll (path ! i))),
             lookAt = lerp3 (look (path ! i)) (look (path ! Suc i))
                ((progress - scroll (path ! i)) / (scroll (path ! Suc i) - scroll (path ! i)))\<rparr>"
    by (rule conjunct1)
  then have "interpolate CAMERA_PATH 0.5 =
        Inr \<lparr>position = lerp3 (pos (CAMERA_PATH ! 4)) (pos (CAMERA_PATH ! Suc 4))
                ((0.5 - scroll (CAMERA_PATH ! 4)) /
                 (scroll (CAMERA_PATH ! Suc 4) - scroll (CAMERA_PATH ! 4))),
             lookAt = lerp3 (look (CAMERA_PATH ! 4)) (look (CAMERA_PATH ! Suc 4))
                ((0.5 - scroll (CAMERA_PATH ! 4)) /
                 (scroll (CAMERA_PATH ! Suc 4) - scroll (CAMERA_PATH ! 4)))\<rparr>"
    using h by blast
  then have "interpolate CAMERA_PATH 0.5 =
     Inr \<lparr>position = \<lparr>x = -8, y = 1.6, z = -5\<rparr>, lookAt = \<lparr>x = -6, y = 1.6, z = -9\<rparr>\<rparr>"
    by (simp add: CAMERA_PATH_def lerp3_def lerp_def)
  with h show ?thesis by simp
qed

text \<open>
  C1 as stated fails: the scenario's path has strictly increasing scroll values and
  progress 0.075 lies between its first two, yet the interpolated position is
  (0, 1.6, 10.95), not the midpoint (0, 1.6, 9) of the first segment; and progress 0.25
  gives position (0, 1.6, 8.5), not (-2, 1.6, 2).
\<close>

theorem scenario_stretched:
  "strictlyIncreasing scenarioPath \<and> Suc 0 < length scenarioPath \<and>
   scroll (scenarioPath ! 0) \<le> 0.075 \<and> 0.075 \<le> scroll (scenarioPath ! Suc 0) \<and>
   interpolate scenarioPath 0.075 \<noteq>
     Inr \<lparr>position = lerp3 (pos (scenarioPath ! 0)) (pos (scenarioPath ! Suc 0))
            ((0.075 - scroll (scenarioPath ! 0)) /
             (scroll (scenarioPath ! Suc 0) - scroll (scenarioPath ! 0))),
          lookAt = lerp3 (look (scenarioPath ! 0)) (look (scenarioPath ! Suc 0))
            ((0.075 - scroll (scenarioPath ! 0)) /
             (scroll (scenarioPath ! Suc 0) - scroll (scenarioPath ! 0)))\<rparr> \<and>
   interpolate scenarioPath 0.075 \<noteq>
     Inr \<lparr>position = \<lparr>x = 0, y = 1.6, z = 9.0\<rparr>, lookAt = \<lparr>x = 0, y = 1.6, z = 0\<rparr>\<rparr> \<and>
   interpolate scenarioPath 0.075 =
     Inr \<lparr>position = \<lparr>x = 0, y = 1.6, z = 10.95\<rparr>, lookAt = \<lparr>x = 0, y = 1.6, z = 0\<rparr>\<rparr> \<and>
   interpolate scenarioPath 0.25 =
     Inr \<lparr>position = \<lparr>x = 0, y = 1.6, z = 8.5\<rparr>, lookAt = \<lparr>x = 0, y = 1.6, z = 0\<rparr>\<rparr>"
proof -
  have inc: "strictlyIncreasing scenarioPath" by (simp add: scenarioPath_def)
  have a: "interpolate scenarioPath 0.075 =
      Inr (segmentPose (scenarioPath ! 0) (scenarioPath ! Suc 0)
        (localParam (scenarioPath ! 0) (scenarioPath ! Suc 0)
          (0.075 * scroll (last scenarioPath))))"
    by (rule interpolate_stretched_aux [OF inc]) (simp_all add: scenarioPath_def)
  have b: "interpolate scenarioPath 0.25 =
      Inr (segmentPose (scenarioPath ! 0) (scenarioPath ! Suc 0)
        (localParam (scenarioPath ! 0) (scenarioPath ! Suc 0)
          (0.25 * scroll (last scenarioPath))))"
    by (rule interpolate_stretched_aux [OF inc]) (simp_all add: scenarioPath_def)
  show ?thesis
    unfolding a b
    by (simp add: scenarioPath_def segmentPose_def localParam_def lerp3_def lerp_def)
qed

lemma interpolate_total: "\<exists>c. interpolate path progress = Inr c"
  by (cases path) (simp_all add: interpolate_def mapCameraPath_Nil mapCameraPath_Cons)

lemma clamp01_low: "progress \<le> 0 \<Longrightarrow> clamp01 progress = clamp01 0"
  by (simp add: clamp01_def)

lemma clamp01_high: "1 \<le> progress \<Longrightarrow> clamp01 progress = clamp01 1"
  by (simp add: clamp01_def)

lemma interpolate_cong_clamp01:
  "clamp01 p = clamp01 q \<Longrightarrow> interpolate path p = interpolate path q"
  by (simp add: interpolate_def split: sum.splits)

lemma strictlyIncreasing_Suc:
  "strictlyIncreasing path \<Longrightarrow> Suc i < length path \<Longrightarrow> scroll (path ! i) < scroll (path ! Suc i)"
proof (induction path arbitrary: i rule: strictlyIncreasing.induct)
  case 1
  then show ?case by simp
next
  case (2 k)
  then show ?case by simp
next
  case (3 k k' ks)
  then show ?case by (cases i) simp_all
qed

lemma interpolate_keyframe_aux:
  assumes inc: "strictlyIncreasing path" and j: "j < length path"
    and last: "scroll (last path) = 1"
    and unit: "0 \<le> scroll (path ! j)" "scroll (path ! j) \<le> 1"
  shows "interpolate path (scroll (path ! j)) = Inr (poseOf (path ! j))"
proof (cases "Suc j < length path")
  case True
  have "interpolate path (scroll (path ! j)) =
      Inr (segmentPose (path ! j) (path ! Suc j)
        (localParam (path ! j) (path ! Suc j) (scroll (path ! j))))"
    using inc True last unit strictlyIncreasing_Suc [OF inc True]
    by (intro interpolate_segment_aux) simp_all
  then show ?thesis
    by (simp add: segmentPose_def localParam_def lerp3_0 poseOf_def)
next
  case False
  obtain k ks where path: "path = k # ks" using j by (cases path) auto
  have "j = length path - 1" using False j by simp
  moreover have "path \<noteq> []" using path by simp
  ultimately have lastj: "path ! j = last path"
    using last_conv_nth [of path] by simp
  have "interpolate path (scroll (path ! j)) = Inr (pathPose k ks (scroll (path ! j)))"
    using inc last unit by (simp add: path interpolate_unit clamp01_def)
  also have "pathPose k ks (scroll (path ! j)) = poseOf (last (k # ks))"
    using inc lastj unfolding path by (intro pathPose_after) simp_all
  finally show ?thesis using lastj path by simp
qed

lemma localParam_left: "scroll a \<noteq> scroll b \<Longrightarrow> localParam a b (scroll b) = 1"
  by (simp add: localParam_def)

lemma localParam_right: "localParam a b (scroll a) = 0"
  by (simp add: localParam_def)

lemma segmentPose_0: "segmentPose a b 0 = poseOf a"
  by (simp add: segmentPose_def lerp3_0 poseOf_def)

lemma segmentPose_1: "segmentPose a b 1 = poseOf b"
  by (simp add: segmentPose_def lerp3_1 poseOf_def)

lemma clamp01_max_min: "clamp01 = (\<lambda>p. max 0 (min 1 p))"
  by (auto simp: clamp01_def fun_eq_iff)

lemma clamp01_continuous: "continuous_on UNIV clamp01"
  unfolding clamp01_max_min by (intro continuous_intros)

lemma pathPose_component_continuous:
  fixes g :: "keyframe \<Rightarrow> real" and sel :: "pose \<Rightarrow> real"
  assumes sel_pose: "\<And>a. sel (poseOf a) = g a"
    and sel_seg: "\<And>a b u. sel (segmentPose a b u) = lerp (g a) (g b) u"
  shows "strictlyIncreasing (k # ks) \<Longrightarrow> continuous_on UNIV (\<lambda>p. sel (pathPose k ks p))"
proof (induction ks arbitrary: k)
  case Nil
  show ?case by (simp add: sel_pose)
next
  case (Cons k' rest)
  have lt: "scroll k < scroll k'" and inc: "strictlyIncreasing (k' # rest)"
    using Cons.prems by simp_all
  let ?L = "\<lambda>p. lerp (g k) (g k') (localParam k k' p)"
  let ?H = "\<lambda>p. sel (pathPose k' rest p)"
  let ?inner = "\<lambda>p. if p \<le> scroll k' then ?L p else ?H p"
  have L: "continuous_on A ?L" for A
    unfolding lerp_def localParam_def using lt by (intro continuous_intros) simp
  have H: "continuous_on A ?H" for A
    using Cons.IH [OF inc] by (rule continuous_on_subset) simp
  have Hb: "?H (scroll k') = g k'"
    by (simp add: pathPose_before sel_pose)
  have Lb: "?L (scroll k') = g k'"
    using lt by (simp add: lerp_def localParam_def)
  have La: "?L (scroll k) = g k"
    by (simp add: lerp_def localParam_def)
  have "continuous_on ({..scroll k'} \<union> {scroll k'..}) ?inner"
  proof (rule continuous_on_If)
    show "closed {..scroll k'}" "closed {scroll k'..}" by simp_all
    show "continuous_on {..scroll k'} ?L" by (rule L)
    show "continuous_on {scroll k'..} ?H" by (rule H)
    show "\<And>p. p \<in> {..scroll k'} \<Longrightarrow> \<not> p \<le> scroll k' \<Longrightarrow> ?L p = ?H p" by simp
    show "\<And>p. p \<in> {scroll k'..} \<Longrightarrow> p \<le> scroll k' \<Longrightarrow> ?L p = ?H p"
    proof -
      fix p assume "p \<in> {scroll k'..}" "p \<le> scroll k'"
      then have "p = scroll k'" by simp
      then show "?L p = ?H p" using Lb Hb by simp
    qed
  qed
  moreover have "{..scroll k'} \<union> {scroll k'..} = (UNIV :: real set)" by auto
  ultimately have inner: "continuous_on A ?inner" for A
    using continuous_on_subset [of UNIV ?inner A] by simp
  have "continuous_on ({..scroll k} \<union> {scroll k..})
      (\<lambda>p. if p \<le> scroll k then g k else ?inner p)"
  proof (rule continuous_on_If)
    show "closed {..scroll k}" "closed {scroll k..}" by simp_all
    show "continuous_on {..scroll k} (\<lambda>p. g k)" by simp
    show "continuous_on {scroll k..} ?inner" by (rule inner)
    show "\<And>p. p \<in> {..scroll k} \<Longrightarrow> \<not> p \<le> scroll k \<Longrightarrow> g k = ?inner p" by simp
    show "\<And>p. p \<in> {scroll k..} \<Longrightarrow> p \<le> scroll k \<Longrightarrow> g k = ?inner p"
    proof -
      fix p assume "p \<in> {scroll k..}" "p \<le> scroll k"
      then have "p = scroll k" by simp
      then show "g k = ?inner p" using La lt by simp
    qed
  qed
  moreover have "{..scroll k} \<union> {scroll k..} = (UNIV :: real set)" by auto
  ultimately have cont: "continuous_on UNIV (\<lambda>p. if p \<le> scroll k then g k else ?inner p)"
    by simp
  have eq: "(\<lambda>p. sel (pathPose k (k' # rest) p)) =
      (\<lambda>p. if p \<le> scroll k then g k else ?inner p)"
    by (simp add: fun_eq_iff sel_pose sel_seg)
  show ?case
    by (rule ssubst [OF eq, of "continuous_on UNIV"]) (rule cont)
qed

lemma pathPose_continuous:
  assumes inc: "strictlyIncreasing (k # ks)"
  shows "continuous_on UNIV (\<lambda>p. coordinates (pathPose k ks p))"
  unfolding coordinates_def
  by (intro continuous_on_Pair pathPose_component_continuous [OF _ _ inc])
    (simp_all add: poseOf_def segmentPose_def lerp3_def)

lemma interpolate_continuous:
  assumes inc: "strictlyIncreasing path"
  shows "\<exists>f. (\<forall>p. interpolate path p = Inr (f p)) \<and>
    continuous_on UNIV (\<lambda>p. coordinates (f p))"
proof (cases path)
  case Nil
  show ?thesis
    by (rule exI [of _ "\<lambda>p. newCamera"]) (simp add: Nil interpolate_Nil)
next
  case (Cons k ks)
  have inc': "strictlyIncreasing (k # ks)" using inc Cons by simp
  let ?d = "timelineDuration (segmentTweens (k # ks))"
  have "continuous_on UNIV (\<lambda>p. clamp01 p * ?d)"
    by (intro continuous_intros clamp01_continuous)
  then have "continuous_on UNIV (\<lambda>p. coordinates (pathPose k ks (clamp01 p * ?d)))"
    by (rule continuous_on_compose2 [OF pathPose_continuous [OF inc']]) simp
  then show ?thesis
    by (intro exI [of _ "\<lambda>p. pathPose k ks (clamp01 p * ?d)"])
      (simp add: Cons interpolate_Cons [OF inc'])
qed

text \<open>
  C2: on every camera path (strictly increasing scroll values in [0,1], the last one 1),
  interpolating at the scroll value of a keyframe returns exactly that keyframe's
  position and look-at point. At every interior keyframe the segment on its left ends
  (local parameter 1) in the pose in which the segment on its right starts (local
  parameter 0), and that pose is the interpolated one: the pose does not jump at a
  segment boundary. Indeed on every path with strictly increasing scroll values every
  coordinate of the interpolated pose is a continuous function of the progress.
\<close>

theorem interpolate_keyframes:
  "(\<forall>path. strictlyIncreasing path \<and> (\<forall>k \<in> set path. 0 \<le> scroll k \<and> scroll k \<le> 1) \<and>
      scroll (last path) = 1 \<longrightarrow>
     (\<forall>k \<in> set path.
        interpolate path (scroll k) = Inr \<lparr>position = pos k, lookAt = look k\<rparr>) \<and>
     (\<forall>i. Suc (Suc i) < length path \<longrightarrow>
        localParam (path ! i) (path ! Suc i) (scroll (path ! Suc i)) = 1 \<and>
        localParam (path ! Suc i) (path ! Suc (Suc i)) (scroll (path ! Suc i)) = 0 \<and>
        segmentPose (path ! i) (path ! Suc i) 1 =
          segmentPose (path ! Suc i) (path ! Suc (Suc i)) 0 \<and>
        interpolate path (scroll (path ! Suc i)) =
          Inr (segmentPose (path ! i) (path ! Suc i) 1))) \<and>
   (\<forall>path. strictlyIncreasing path \<longrightarrow>
     (\<exists>f. (\<forall>p. interpolate path p = Inr (f p)) \<and>
        continuous_on UNIV (\<lambda>p. coordinates (f p))))"
proof (intro allI impI conjI ballI)
  fix path k
  assume h: "strictlyIncreasing path \<and> (\<forall>k \<in> set path. 0 \<le> scroll k \<and> scroll k \<le> 1) \<and>
      scroll (last path) = 1"
    and k: "k \<in> set path"
  obtain j where j: "j < length path" "path ! j = k"
    using k by (auto simp: in_set_conv_nth)
  have "interpolate path (scroll (path ! j)) = Inr (poseOf (path ! j))"
    using h j k by (intro interpolate_keyframe_aux) auto
  then show "interpolate path (scroll k) = Inr \<lparr>position = pos k, lookAt = look k\<rparr>"
    using j by (simp add: poseOf_def)
next
  fix path i
  assume h: "strictlyIncreasing path \<and> (\<forall>k \<in> set path. 0 \<le> scroll k \<and> scroll k \<le> 1) \<and>
      scroll (last path) = 1"
    and i: "Suc (Suc i) < length path"
  have "scroll (path ! i) < scroll (path ! Suc i)"
    using h i by (intro strictlyIncreasing_Suc) simp_all
  then show "localParam (path ! i) (path ! Suc i) (scroll (path ! Suc i)) = 1"
    by (simp add: localParam_left)
  show "localParam (path ! Suc i) (path ! Suc (Suc i)) (scroll (path ! Suc i)) = 0"
    by (rule localParam_right)
  show "segmentPose (path ! i) (path ! Suc i) 1 =
      segmentPose (path ! Suc i) (path ! Suc (Suc i)) 0"
    by (simp add: segmentPose_0 segmentPose_1)
  have mem: "path ! Suc i \<in> set path" using i by simp
  have "interpolate path (scroll (path ! Suc i)) = Inr (poseOf (path ! Suc i))"
    using h i mem by (intro interpolate_keyframe_aux) auto
  then show "interpolate path (scroll (path ! Suc i)) =
      Inr (segmentPose (path ! i) (path ! Suc i) 1)"
    by (simp add: segmentPose_1)
next
  fix path
  assume "strictlyIncreasing path"
  then show "\<exists>f. (\<forall>p. interpolate path p = Inr (f p)) \<and>
      continuous_on UNIV (\<lambda>p. coordinates (f p))"
    by (rule interpolate_continuous)
qed

theorem interpolate_keyframes_witness:
  "strictlyIncreasing CAMERA_PATH \<and>
   list_all (\<lambda>k. 0 \<le> scroll k \<and> scroll k \<le> 1) CAMERA_PATH \<and>
   scroll (last CAMERA_PATH) = 1 \<and>
   CAMERA_PATH ! 3 \<in> set CAMERA_PATH \<and> Suc (Suc 2) < length CAMERA_PATH \<and>
   interpolate CAMERA_PATH 0.35 =
     Inr \<lparr>position = \<lparr>x = -4, y = 1.6, z = -2\<rparr>, lookAt = \<lparr>x = -8, y = 1.6, z = -2\<rparr>\<rparr> \<and>
   segmentPose (CAMERA_PATH ! 2) (CAMERA_PATH ! 3) 1 =
     segmentPose (CAMERA_PATH ! 3) (CAMERA_PATH ! 4) 0 \<and>
   (\<exists>f. (\<forall>p. interpolate CAMERA_PATH p = Inr (f p)) \<and>
      continuous_on UNIV (\<lambda>p. coordinates (f p)))"
proof -
  have inc: "strictlyIncreasing CAMERA_PATH" by (rule strictlyIncreasing_CAMERA_PATH)
  have unit: "list_all (\<lambda>k. 0 \<le> scroll k \<and> scroll k \<le> 1) CAMERA_PATH"
    by (simp add: CAMERA_PATH_def)
  then have unit': "\<forall>k \<in> set CAMERA_PATH. 0 \<le> scroll k \<and> scroll k \<le> 1"
    by (simp add: list_all_iff)
  have last: "scroll (last CAMERA_PATH) = 1" by (simp add: CAMERA_PATH_def)
  have mem: "CAMERA_PATH ! 3 \<in> set CAMERA_PATH" by (simp add: CAMERA_PATH_def)
  have len: "Suc (Suc 2) < length CAMERA_PATH" by (simp add: CAMERA_PATH_def)
  note first = mp [OF spec [OF conjunct1 [OF interpolate_keyframes], of CAMERA_PATH]
    conjI [OF inc conjI [OF unit' last]]]
  note cont = mp [OF spec [OF conjunct2 [OF interpolate_keyframes], of CAMERA_PATH] inc]
  from first have keys: "\<forall>k \<in> set CAMERA_PATH.
      interpolate CAMERA_PATH (scroll k) = Inr \<lparr>position = pos k, lookAt = look k\<rparr>"
    by (rule conjunct1)
  from first have bounds: "\<forall>i. Suc (Suc i) < length CAMERA_PATH \<longrightarrow>
        localParam (CAMERA_PATH ! i) (CAMERA_PATH ! Suc i) (scroll (CAMERA_PATH ! Suc i)) = 1 \<and>
        localParam (CAMERA_PATH ! Suc i) (CAMERA_PATH ! Suc (Suc i))
          (scroll (CAMERA_PATH ! Suc i)) = 0 \<and>
        segmentPose (CAMERA_PATH ! i) (CAMERA_PATH ! Suc i) 1 =
          segmentPose (CAMERA_PATH ! Suc i) (CAMERA_PATH ! Suc (Suc i)) 0 \<and>
        interpolate CAMERA_PATH (scroll (CAMERA_PATH ! Suc i)) =
          Inr (segmentPose (CAMERA_PATH ! i) (CAMERA_PATH ! Suc i) 1)"
    by (rule conjunct2)
  from keys have "interpolate CAMERA_PATH (scroll (CAMERA_PATH ! 3)) =
      Inr \<lparr>position = pos (CAMERA_PATH ! 3), lookAt = look (CAMERA_PATH ! 3)\<rparr>"
    using mem by blast
  then have a: "interpolate CAMERA_PATH 0.35 =
     Inr \<lparr>position = \<lparr>x = -4, y = 1.6, z = -2\<rparr>, lookAt = \<lparr>x = -8, y = 1.6, z = -2\<rparr>\<rparr>"
    by (simp add: CAMERA_PATH_def)
  have "segmentPose (CAMERA_PATH ! 2) (CAMERA_PATH ! Suc 2) 1 =
     segmentPose (CAMERA_PATH ! Suc 2) (CAMERA_PATH ! Suc (Suc 2)) 0"
    using bounds len by blast
  then have b: "segmentPose (CAMERA_PATH ! 2) (CAMERA_PATH ! 3) 1 =
     segmentPose (CAMERA_PATH ! 3) (CAMERA_PATH ! 4) 0"
    by (simp add: eval_nat_numeral)
  show ?thesis using inc unit last mem len a b cont by simp
qed

lemma pathPose_saturates:
  assumes inc: "strictlyIncreasing (k # ks)" and first: "scroll k = 0"
    and last: "scroll (last (k # ks)) = 1"
  shows "pathPose k ks (clamp01 progress) = pathPose k ks progress"
proof -
  consider (below) "progress < 0" | (above) "1 < progress" | (unit) "0 \<le> progress" "progress \<le> 1"
    by linarith
  then show ?thesis
  proof cases
    case below
    then have "pathPose k ks progress = poseOf k" "pathPose k ks (clamp01 progress) = poseOf k"
      using first by (simp_all add: pathPose_before clamp01_def)
    then show ?thesis by simp
  next
    case above
    have "pathPose k ks progress = poseOf (last (k # ks))"
      using inc above last by (intro pathPose_after) simp_all
    moreover have "pathPose k ks (clamp01 progress) = poseOf (last (k # ks))"
      using inc above last by (intro pathPose_after) (simp_all add: clamp01_def)
    ultimately show ?thesis by simp
  next
    case unit
    then show ?thesis by (simp add: clamp01_def)
  qed
qed

text \<open>
  C4: progress outside [0,1] is clamped, never rejected: every progress yields a pose, a
  progress below 0 the pose of progress 0 and a progress above 1 the pose of progress 1
  (so for -0.5 and 1.5 on the program's path). On a valid path, progress exactly 1
  resolves to the last segment at local parameter 1, the pose of the last keyframe, and
  progress 0 to the pose of the first keyframe. The timeline of a valid path saturates by
  itself: played at a progress outside [0,1] it gives the pose of the clamped progress.
\<close>

theorem interpolate_clamped:
  "(\<forall>path progress. progress \<le> 0 \<longrightarrow> interpolate path progress = interpolate path 0) \<and>
   (\<forall>path progress. 1 \<le> progress \<longrightarrow> interpolate path progress = interpolate path 1) \<and>
   (\<forall>path progress. \<exists>c. interpolate path progress = Inr c) \<and>
   (\<forall>path. validPath path \<longrightarrow>
      interpolate path 1 = Inr (poseOf (last path)) \<and>
      interpolate path 1 =
        Inr (segmentPose (path ! (length path - 2)) (path ! (length path - 1)) 1) \<and>
      interpolate path 0 = Inr (poseOf (hd path))) \<and>
   (\<forall>path progress s.
      validPath path \<and> mapCameraPath path \<lparr>cam = newCamera, timeline = []\<rparr> = Inr s \<longrightarrow>
      renderTimeline progress s = renderTimeline (clamp01 progress) s) \<and>
   interpolate CAMERA_PATH (-0.5) = interpolate CAMERA_PATH 0.0 \<and>
   interpolate CAMERA_PATH 1.5 = interpolate CAMERA_PATH 1.0"
proof (intro conjI allI impI)
  fix path :: "keyframe list" and progress :: real
  show "\<exists>c. interpolate path progress = Inr c" by (rule interpolate_total)
  {
    assume "progress \<le> 0"
    then show "interpolate path progress = interpolate path 0"
      by (intro interpolate_cong_clamp01) (simp add: clamp01_def)
  }
  {
    assume "1 \<le> progress"
    then show "interpolate path progress = interpolate path 1"
      by (intro interpolate_cong_clamp01) (simp add: clamp01_def)
  }
next
  show "interpolate CAMERA_PATH (-0.5) = interpolate CAMERA_PATH 0.0"
    by (intro interpolate_cong_clamp01) (simp add: clamp01_def)
  show "interpolate CAMERA_PATH 1.5 = interpolate CAMERA_PATH 1.0"
    by (intro interpolate_cong_clamp01) (simp add: clamp01_def)
next
  fix path
  assume v: "validPath path"
  then obtain k ks where path: "path = k # ks" by (cases path) (auto simp: validPath_def)
  have inc: "strictlyIncreasing path" and len: "2 \<le> length path"
    and first: "scroll (hd path) = 0" and last: "scroll (last path) = 1"
    using v by (simp_all add: validPath_def)
  have unit: "interpolate path q = Inr (pathPose k ks (clamp01 q))" for q
    using inc last unfolding path by (rule interpolate_unit)
  have "interpolate path 1 = Inr (pathPose k ks 1)"
    by (simp add: unit clamp01_def)
  also have "pathPose k ks 1 = poseOf (last (k # ks))"
    using inc last unfolding path by (intro pathPose_after) simp_all
  finally show one: "interpolate path 1 = Inr (poseOf (last path))" by (simp add: path)
  have "last path = path ! (length path - 1)"
    using path by (simp add: last_conv_nth)
  then show "interpolate path 1 =
      Inr (segmentPose (path ! (length path - 2)) (path ! (length path - 1)) 1)"
    using one by (simp add: segmentPose_1)
  have "interpolate path 0 = Inr (pathPose k ks 0)"
    by (simp add: unit clamp01_def)
  then show "interpolate path 0 = Inr (poseOf (hd path))"
    using first by (simp add: path pathPose_before)
next
  fix path progress s
  assume h: "validPath path \<and> mapCameraPath path \<lparr>cam = newCamera, timeline = []\<rparr> = Inr s"
  then obtain k ks where path: "path = k # ks" by (cases path) (auto simp: validPath_def)
  have inc: "strictlyIncreasing (k # ks)" and first: "scroll k = 0"
    and last: "scroll (last (k # ks)) = 1"
    using h by (simp_all add: validPath_def path)
  have s: "s = \<lparr>cam = poseOf k, timeline = segmentTweens (k # ks)\<rparr>"
    using h by (simp add: path mapCameraPath_Cons)
  have "renderTimeline q s = pathPose k ks q" for q
    using inc by (simp add: s renderTimeline_def render_pathPose)
  then show "renderTimeline progress s = renderTimeline (clamp01 progress) s"
    using pathPose_saturates [OF inc first last] by simp
qed

theorem interpolate_clamped_witness:
  "validPath CAMERA_PATH \<and> (-0.5::real) \<le> 0 \<and> (1::real) \<le> 1.5 \<and>
   interpolate CAMERA_PATH (-0.5) =
     Inr \<lparr>position = \<lparr>x = 0, y = 1.6, z = 12\<rparr>, lookAt = \<lparr>x = 0, y = 1.6, z = 0\<rparr>\<rparr> \<and>
   interpolate CAMERA_PATH 1.5 =
     Inr \<lparr>position = \<lparr>x = -4, y = 1.6, z = -22\<rparr>, lookAt = \<lparr>x = 0, y = 1.6, z = -22\<rparr>\<rparr>"
proof -
  have v: "validPath CAMERA_PATH" by (simp add: validPath_def CAMERA_PATH_def)
  have lo: "(-0.5::real) \<le> 0" and hi: "(1::real) \<le> 1.5" by simp_all
  have "interpolate CAMERA_PATH (-0.5) = interpolate CAMERA_PATH 0"
    using interpolate_clamped lo by blast
  moreover have "interpolate CAMERA_PATH 0 = Inr (poseOf (hd CAMERA_PATH))"
    using interpolate_clamped v by blast
  ultimately have a: "interpolate CAMERA_PATH (-0.5) =
     Inr \<lparr>position = \<lparr>x = 0, y = 1.6, z = 12\<rparr>, lookAt = \<lparr>x = 0, y = 1.6, z = 0\<rparr>\<rparr>"
    by (simp add: CAMERA_PATH_def poseOf_def)
  have "interpolate CAMERA_PATH 1.5 = interpolate CAMERA_PATH 1"
    using interpolate_clamped hi by blast
  moreover have "interpolate CAMERA_PATH 1 = Inr (poseOf (last CAMERA_PATH))"
    using interpolate_clamped v by blast
  ultimately have b: "interpolate CAMERA_PATH 1.5 =
     Inr \<lparr>position = \<lparr>x = -4, y = 1.6, z = -22\<rparr>, lookAt = \<lparr>x = 0, y = 1.6, z = -22\<rparr>\<rparr>"
    by (simp add: CAMERA_PATH_def poseOf_def)
  show ?thesis using v lo hi a b by simp
qed

subsection \<open>No validation of the path\<close>

lemma segmentTweens_index:
  "segmentTweens path =
     concat (map (\<lambda>i.
       [\<lparr>target = CameraPosition, vars = pos (path ! Suc i),
         duration = scroll (path ! Suc i) - scroll (path ! i), startTime = scroll (path ! i)\<rparr>,
        \<lparr>target = LookObj (look (path ! i)), vars = look (path ! Suc i),
         duration = scroll (path ! Suc i) - scroll (path ! i), startTime = scroll (path ! i)\<rparr>])
       [0..<length path - 1])"
proof (induction path rule: segmentTweens.induct)
  case (1 prev point rest)
  have "[0..<length (prev # point # rest) - 1] = 0 # map Suc [0..<length (point # rest) - 1]"
    by (simp add: upt_conv_Cons map_Suc_upt del: upt_Suc)
  then show ?case using 1 by (simp add: comp_def del: upt_Suc)
next
  case (2 k)
  show ?case by simp
next
  case 3
  show ?case by simp
qed

text \<open>
  C5, as the program has it: the camera path is not validated. Mapping any path onto the
  timeline succeeds, whatever its length and its scroll values, and adds for every
  keyframe after the first, in order, one tween of the camera's position to the
  keyframe's position and one tween of a look-at object, created with the previous
  keyframe's look-at point, to the keyframe's look-at point; both start at the previous
  keyframe's scroll value and last for the difference of the two scroll values, be it
  zero or negative.
\<close>

theorem mapCameraPath_unchecked:
  "\<exists>s'. mapCameraPath path s = Inr s' \<and>
     timeline s' = timeline s @
       concat (map (\<lambda>i.
         [\<lparr>target = CameraPosition, vars = pos (path ! Suc i),
           duration = scroll (path ! Suc i) - scroll (path ! i),
           startTime = scroll (path ! i)\<rparr>,
          \<lparr>target = LookObj (look (path ! i)), vars = look (path ! Suc i),
           duration = scroll (path ! Suc i) - scroll (path ! i),
           startTime = scroll (path ! i)\<rparr>])
         [0..<length path - 1])"
proof (cases path)
  case Nil
  then show ?thesis by (simp add: mapCameraPath_Nil)
next
  case (Cons k ks)
  show ?thesis
    unfolding Cons mapCameraPath_Cons
    using segmentTweens_index [of "k # ks"] by simp
qed

theorem mapCameraPath_unchecked_witness:
  "\<exists>s'. mapCameraPath [CAMERA_PATH ! 1, CAMERA_PATH ! 0] \<lparr>cam = newCamera, timeline = []\<rparr> =
       Inr s' \<and>
     timeline s' =
       [\<lparr>target = CameraPosition, vars = \<lparr>x = 0, y = 1.6, z = 12\<rparr>,
         duration = -0.15, startTime = 0.15\<rparr>,
        \<lparr>target = LookObj \<lparr>x = 0, y = 1.6, z = 0\<rparr>, vars = \<lparr>x = 0, y = 1.6, z = 0\<rparr>,
         duration = -0.15, startTime = 0.15\<rparr>]"
  using mapCameraPath_unchecked [of "[CAMERA_PATH ! 1, CAMERA_PATH ! 0]"
      "\<lparr>cam = newCamera, timeline = []\<rparr>"]
  by (simp add: CAMERA_PATH_def)

text \<open>
  C5 as stated fails: the empty path, a path of one keyframe, a path whose scroll values
  decrease and a path with the same scroll value twice are all invalid, and all are
  mapped onto the timeline without an error; the last two with tweens of negative and of
  zero duration.
\<close>

theorem invalid_path_accepted:
  "\<not> validPath [] \<and> \<not> validPath [CAMERA_PATH ! 0] \<and>
   \<not> validPath [CAMERA_PATH ! 1, CAMERA_PATH ! 0] \<and>
   \<not> validPath [CAMERA_PATH ! 0, CAMERA_PATH ! 0] \<and>
   mapCameraPath [] \<lparr>cam = newCamera, timeline = []\<rparr> =
     Inr \<lparr>cam = newCamera, timeline = []\<rparr> \<and>
   mapCameraPath [CAMERA_PATH ! 0] \<lparr>cam = newCamera, timeline = []\<rparr> =
     Inr \<lparr>cam = \<lparr>position = \<lparr>x = 0, y = 1.6, z = 12\<rparr>, lookAt = \<lparr>x = 0, y = 1.6, z = 0\<rparr>\<rparr>,
          timeline = []\<rparr> \<and>
   mapCameraPath [CAMERA_PATH ! 1, CAMERA_PATH ! 0] \<lparr>cam = newCamera, timeline = []\<rparr> =
     Inr \<lparr>cam = \<lparr>position = \<lparr>x = 0, y = 1.6, z = 6\<rparr>, lookAt = \<lparr>x = 0, y = 1.6, z = 0\<rparr>\<rparr>,
          timeline =
            [\<lparr>target = CameraPosition, vars = \<lparr>x = 0, y = 1.6, z = 12\<rparr>,
              duration = -0.15, startTime = 0.15\<rparr>,
             \<lparr>target = LookObj \<lparr>x = 0, y = 1.6, z = 0\<rparr>, vars = \<lparr>x = 0, y = 1.6, z = 0\<rparr>,
              duration = -0.15, startTime = 0.15\<rparr>]\<rparr> \<and>
   mapCameraPath [CAMERA_PATH ! 0, CAMERA_PATH ! 0] \<lparr>cam = newCamera, timeline = []\<rparr> =
     Inr \<lparr>cam = \<lparr>position = \<lparr>x = 0, y = 1.6, z = 12\<rparr>, lookAt = \<lparr>x = 0, y = 1.6, z = 0\<rparr>\<rparr>,
          timeline =
            [\<lparr>target = CameraPosition, vars = \<lparr>x = 0, y = 1.6, z = 12\<rparr>,
              duration = 0, startTime = 0\<rparr>,
             \<lparr>target = LookObj \<lparr>x = 0, y = 1.6, z = 0\<rparr>, vars = \<lparr>x = 0, y = 1.6, z = 0\<rparr>,
              duration = 0, startTime = 0\<rparr>]\<rparr>"
  by (simp add: validPath_def mapCameraPath_Nil mapCameraPath_Cons CAMERA_PATH_def poseOf_def)

lemma pathPose_height:
  "\<forall>k' \<in> set (k # ks). y (pos k') = h \<and> y (look k') = h \<Longrightarrow>
   y (position (pathPose k ks progress)) = h \<and> y (lookAt (pathPose k ks progress)) = h"
  by (induction ks arbitrary: k)
    (simp_all add: poseOf_def segmentPose_def lerp3_def lerp_def)

text \<open>
  C10: every keyframe of the program's camera path has its position and its look-at
  point at height 1.6, and so has the interpolated pose at every progress in [0,1]: the
  camera stays at eye height and looks at a point at eye height.
\<close>

theorem eye_height:
  "(\<forall>k \<in> set CAMERA_PATH. y (pos k) = 1.6 \<and> y (look k) = 1.6) \<and>
   (\<forall>progress. 0 \<le> progress \<and> progress \<le> 1 \<longrightarrow>
      (\<exists>c. interpolate CAMERA_PATH progress = Inr c \<and>
         y (position c) = 1.6 \<and> y (lookAt c) = 1.6))"
proof (intro conjI allI impI)
  show keys: "\<forall>k \<in> set CAMERA_PATH. y (pos k) = 1.6 \<and> y (look k) = 1.6"
    by (simp add: CAMERA_PATH_def)
  fix progress :: real
  obtain k ks where path: "CAMERA_PATH = k # ks" by (simp add: CAMERA_PATH_def)
  let ?playhead = "clamp01 progress * timelineDuration (segmentTweens (k # ks))"
  have "interpolate CAMERA_PATH progress = Inr (pathPose k ks ?playhead)"
    using strictlyIncreasing_CAMERA_PATH unfolding path by (rule interpolate_Cons)
  moreover have "y (position (pathPose k ks ?playhead)) = 1.6 \<and>
      y (lookAt (pathPose k ks ?playhead)) = 1.6"
    using keys unfolding path by (rule pathPose_height)
  ultimately show "\<exists>c. interpolate CAMERA_PATH progress = Inr c \<and>
         y (position c) = 1.6 \<and> y (lookAt c) = 1.6"
    by simp
qed

theorem eye_height_witness:
  "(0::real) \<le> 0.3 \<and> (0.3::real) \<le> 1 \<and> CAMERA_PATH ! 2 \<in> set CAMERA_PATH \<and>
   y (pos (CAMERA_PATH ! 2)) = 1.6 \<and>
   (\<exists>c. interpolate CAMERA_PATH 0.3 = Inr c \<and> y (position c) = 1.6 \<and> y (lookAt c) = 1.6)"
proof -
  have h: "(0::real) \<le> 0.3 \<and> (0.3::real) \<le> 1" by simp
  have mem: "CAMERA_PATH ! 2 \<in> set CAMERA_PATH" by (simp add: CAMERA_PATH_def)
  have "y (pos (CAMERA_PATH ! 2)) = 1.6" using eye_height mem by blast
  moreover have "\<exists>c. interpolate CAMERA_PATH 0.3 = Inr c \<and>
      y (position c) = 1.6 \<and> y (lookAt c) = 1.6"
    using eye_height h by blast
  ultimately show ?thesis using h mem by simp
qed

subsection \<open>Scroll updates and resizes\<close>

lemma scrollUpdate_result:
  "interpolate CAMERA_PATH progress = Inr c \<Longrightarrow>
   scrollUpdate progress s =
     Inr (s\<lparr>camera := (camera s)\<lparr>position := position c, lookAt := lookAt c\<rparr>,
            scrollProgress := progress, currentRoom := roomLabel progress\<rparr>)"
  by (simp add: scrollUpdate_def scrubTimeline_def onUpdate_def)

text \<open>
  C7: scroll updates are idempotent. A scroll update always goes through; delivering the
  same progress again to the state it produced changes nothing; and the progress, the
  room label and the camera pose after an update are those of the progress alone (the
  label chosen by the thresholds, the pose the interpolated one), whatever the state
  the update was delivered to.
\<close>

theorem scrollUpdate_idempotent:
  "\<exists>s1. scrollUpdate progress s = Inr s1 \<and> scrollUpdate progress s1 = Inr s1 \<and>
     scrollProgress s1 = progress \<and> currentRoom s1 = roomLabel progress \<and>
     interpolate CAMERA_PATH progress =
       Inr \<lparr>position = position (camera s1), lookAt = lookAt (camera s1)\<rparr> \<and>
     (\<forall>s2. \<exists>s3. scrollUpdate progress s2 = Inr s3 \<and>
        currentRoom s3 = currentRoom s1 \<and> scrollProgress s3 = scrollProgress s1 \<and>
        position (camera s3) = position (camera s1) \<and>
        lookAt (camera s3) = lookAt (camera s1))"
proof -
  obtain c where c: "interpolate CAMERA_PATH progress = Inr c"
    using interpolate_total by blast
  show ?thesis
    by (simp add: scrollUpdate_result [OF c] c)
qed

text \<open>
  C8: for a window of positive height, the resize handler sets the camera's aspect ratio
  to width / height, recomputes the projection from it and resizes the output surface to
  width and height; the scroll progress, the room label and the camera's position and
  look-at point are left as they were.
\<close>

theorem handleResize_frame:
  "0 < innerHeight \<longrightarrow>
     aspect (camera (handleResize innerWidth innerHeight s)) = innerWidth / innerHeight \<and>
     projectionAspect (camera (handleResize innerWidth innerHeight s)) =
       innerWidth / innerHeight \<and>
     rendererSize (handleResize innerWidth innerHeight s) = (innerWidth, innerHeight) \<and>
     scrollProgress (handleResize innerWidth innerHeight s) = scrollProgress s \<and>
     currentRoom (handleResize innerWidth innerHeight s) = currentRoom s \<and>
     position (camera (handleResize innerWidth innerHeight s)) = position (camera s) \<and>
     lookAt (camera (handleResize innerWidth innerHeight s)) = lookAt (camera s)"
  by (simp add: handleResize_def updateProjectionMatrix_def setSize_def)

theorem handleResize_frame_witness:
  "(0::real) < 600 \<and>
   handleResize 800 600
     \<lparr>camera = \<lparr>position = \<lparr>x = -8, y = 1.6, z = -5\<rparr>, lookAt = \<lparr>x = -6, y = 1.6, z = -9\<rparr>,
        aspect = 1920 / 1080, projectionAspect = 1920 / 1080\<rparr>,
      rendererSize = (1920, 1080), scrollProgress = 0.5, currentRoom = ''The Master Suite''\<rparr> =
     \<lparr>camera = \<lparr>position = \<lparr>x = -8, y = 1.6, z = -5\<rparr>, lookAt = \<lparr>x = -6, y = 1.6, z = -9\<rparr>,
        aspect = 4 / 3, projectionAspect = 4 / 3\<rparr>,
      rendererSize = (800, 600), scrollProgress = 0.5, currentRoom = ''The Master Suite''\<rparr>"
proof -
  let ?s = "\<lparr>camera = \<lparr>position = \<lparr>x = -8, y = 1.6, z = -5\<rparr>, lookAt = \<lparr>x = -6, y = 1.6, z = -9\<rparr>,
        aspect = 1920 / 1080, projectionAspect = 1920 / 1080\<rparr>,
      rendererSize = (1920, 1080), scrollProgress = 0.5, currentRoom = ''The Master Suite''\<rparr>"
  have h: "(0::real) < 600" by simp
  have "aspect (camera (handleResize 800 600 ?s)) = 800 / 600"
    using handleResize_frame [of 600 800 ?s] h by blast
  then show ?thesis
    by (simp add: handleResize_def updateProjectionMatrix_def setSize_def)
qed

subsection \<open>The scene\<close>

lemmas scene_defs = new_def createWall_def createRoom_def createBox_def createLamp_def
  addBox_def MeshStandardMaterial_def Let_def split_def

lemma shape_createRoom:
  "shape (fst (createRoom a b w d h wc fc n)) = shape (fst (createRoom a b w d h wc fc 0))"
  by (simp add: scene_defs)

lemma shape_createBox:
  "shape (fst (createBox w h d c px py pz n)) = shape (fst (createBox w h d c px py pz 0))"
  by (simp add: scene_defs)

lemma shape_createLamp:
  "shape (fst (createLamp px py pz n)) = shape (fst (createLamp px py pz 0))"
  by (simp add: scene_defs)

lemma shape_buildApartment: "shape (fst (buildApartment n)) = shape (fst (buildApartment 0))"
  by (simp add: buildApartment_def scene_defs)

lemma nodeCount_buildApartment: "nodeCount (fst (buildApartment n)) = 65"
  by (simp add: buildApartment_def scene_defs)

lemma snd_buildApartment: "snd (buildApartment n) = n + 65"
  by (simp add: buildApartment_def scene_defs)

lemma objId_buildApartment: "objId (fst (buildApartment n)) = n"
  by (simp add: buildApartment_def scene_defs)

text \<open>
  C9: building the scene is deterministic. Two builds, from whatever state of the object
  counter, and so also one build after another, give graphs of the same structure: the
  same 65 nodes in the same arrangement, with the same positions and rotations and the
  same geometries and material parameters, although the objects themselves are
  different ones. The same holds for each room, box and lamp built from the same
  arguments.
\<close>

theorem scene_deterministic:
  "shape (fst (buildApartment n)) = shape (fst (buildApartment m)) \<and>
   shape (fst (buildApartment (snd (buildApartment n)))) = shape (fst (buildApartment n)) \<and>
   fst (buildApartment (snd (buildApartment n))) \<noteq> fst (buildApartment n) \<and>
   nodeCount (fst (buildApartment n)) = nodeCount (fst (buildApartment m)) \<and>
   nodeCount (fst (buildApartment n)) = 65 \<and>
   shape (fst (createRoom rx rz width depth height wallColor floorColor n)) =
     shape (fst (createRoom rx rz width depth height wallColor floorColor m)) \<and>
   shape (fst (createBox w h d boxColor px py pz n)) =
     shape (fst (createBox w h d boxColor px py pz m)) \<and>
   shape (fst (createLamp px py pz n)) = shape (fst (createLamp px py pz m))"
proof (intro conjI)
  show "shape (fst (buildApartment n)) = shape (fst (buildApartment m))"
    using shape_buildApartment [of n] shape_buildApartment [of m] by simp
  show "shape (fst (buildApartment (snd (buildApartment n)))) = shape (fst (buildApartment n))"
    using shape_buildApartment [of n] shape_buildApartment [of "snd (buildApartment n)"]
    by simp
  have "objId (fst (buildApartment (snd (buildApartment n)))) \<noteq> objId (fst (buildApartment n))"
    by (simp add: objId_buildApartment snd_buildApartment)
  then show "fst (buildApartment (snd (buildApartment n))) \<noteq> fst (buildApartment n)"
    by metis
  show "nodeCount (fst (buildApartment n)) = nodeCount (fst (buildApartment m))"
    by (simp add: nodeCount_buildApartment)
  show "nodeCount (fst (buildApartment n)) = 65"
    by (rule nodeCount_buildApartment)
  show "shape (fst (createRoom rx rz width depth height wallColor floorColor n)) =
     shape (fst (createRoom rx rz width depth height wallColor floorColor m))"
    using shape_createRoom [of rx rz width depth height wallColor floorColor n]
      shape_createRoom [of rx rz width depth height wallColor floorColor m] by simp
  show "shape (fst (createBox w h d boxColor px py pz n)) =
     shape (fst (createBox w h d boxColor px py pz m))"
    using shape_createBox [of w h d boxColor px py pz n]
      shape_createBox [of w h d boxColor px py pz m] by simp
  show "shape (fst (createLamp px py pz n)) = shape (fst (createLamp px py pz m))"
    using shape_createLamp [of px py pz n] shape_createLamp [of px py pz m] by simp
qed

end
